theory Spec2Isabelle
  imports Complex_Main
begin

section \<open>Python strings\<close>

text \<open>
  The notebook \<^verbatim>\<open>dm-clustering.ipynb\<close> works on Python \<^verbatim>\<open>str\<close> values. A string is
  modelled as a \<^typ>\<open>string\<close>, one \<^typ>\<open>char\<close> per code point (code points below 256).
\<close>

text \<open>\<^verbatim>\<open>s.replace(old, new)\<close> for a one-character \<^verbatim>\<open>old\<close>.\<close>

definition replace :: "char \<Rightarrow> string \<Rightarrow> string \<Rightarrow> string" where
  "replace old new s = concat (map (\<lambda>c. if c = old then new else [c]) s)"

text \<open>
  \<^verbatim>\<open>s.split(sep)\<close> for a one-character separator: empty pieces are kept, and the
  empty string splits into one empty piece.
\<close>

fun split :: "char \<Rightarrow> string \<Rightarrow> string list" where
  "split sep [] = [[]]"
| "split sep (c # cs) =
     (if c = sep then [] # split sep cs
      else (case split sep cs of [] \<Rightarrow> [[c]] | w # ws \<Rightarrow> (c # w) # ws))"

text \<open>\<^verbatim>\<open>sep.join(pieces)\<close>.\<close>

fun join :: "string \<Rightarrow> string list \<Rightarrow> string" where
  "join sep [] = []"
| "join sep [p] = p"
| "join sep (p # q # ps) = p @ sep @ join sep (q # ps)"

text \<open>
  The characters \<^verbatim>\<open>str.split()\<close> and \<^verbatim>\<open>str.isspace()\<close> treat as whitespace, among
  the code points below 256: tab to carriage return, the four separators 28 to 31, space,
  next-line and no-break space.
\<close>

definition isspace :: "char \<Rightarrow> bool" where
  "isspace c = (let n = (of_char c :: nat)
                in (9 \<le> n \<and> n \<le> 13) \<or> (28 \<le> n \<and> n \<le> 32) \<or> n = 133 \<or> n = 160)"

text \<open>
  \<^verbatim>\<open>s.split()\<close> without a separator: runs of whitespace separate the words, and no
  empty word is produced. The first argument is the word being read.
\<close>

fun split_words :: "string \<Rightarrow> string \<Rightarrow> string list" where
  "split_words cur [] = (if cur = [] then [] else [cur])"
| "split_words cur (c # cs) =
     (if isspace c then (if cur = [] then split_words [] cs else cur # split_words [] cs)
      else split_words (cur @ [c]) cs)"

definition split_ws :: "string \<Rightarrow> string list" where
  "split_ws s = split_words [] s"

text \<open>
  \<^verbatim>\<open>s.lower()\<close>: the letters A to Z, and the upper-case letters of the Latin-1 range
  (192 to 222 without the multiplication sign 215), move up by 32.
\<close>

definition isupper :: "char \<Rightarrow> bool" where
  "isupper c = (let n = (of_char c :: nat)
                in (65 \<le> n \<and> n \<le> 90) \<or> (192 \<le> n \<and> n \<le> 222 \<and> n \<noteq> 215))"

definition lower_char :: "char \<Rightarrow> char" where
  "lower_char c = (if isupper c then char_of ((of_char c :: nat) + 32) else c)"

definition lower :: "string \<Rightarrow> string" where
  "lower s = map lower_char s"

section \<open>Scraping the page into phrases\<close>

text \<open>
  \<^verbatim>\<open>raw_text = ''.join([paragraph.text for paragraph in page])\<close>, where \<^verbatim>\<open>page\<close> is
  the list of paragraph elements; the argument is the list of their texts.
\<close>

definition raw_text :: "string list \<Rightarrow> string" where
  "raw_text page = join [] page"

text \<open>\<^verbatim>\<open>phrases = raw_text.replace('\n','').split('.')\<close>\<close>

definition phrases :: "string \<Rightarrow> string list" where
  "phrases text = split (CHR ''.'') (replace (CHR 0x0A) [] text)"

section \<open>Library values and faults\<close>

text \<open>
  An exception raised by Python or by a library call. The notebook has no
  \<^verbatim>\<open>try\<close> statement, so a fault ends the cell in which it is raised.
\<close>

datatype fault = ValueError | IndexError | NameError | FileNotFoundError | ConnectionError

text \<open>\<^verbatim>\<open>xs[i]\<close> for a non-negative index.\<close>

definition index :: "'a list \<Rightarrow> nat \<Rightarrow> fault + 'a" where
  "index xs i = (if i < length xs then Inr (xs ! i) else Inl IndexError)"

text \<open>
  A list comprehension \<^verbatim>\<open>[f(x) for x in xs]\<close> whose element expression may raise:
  the first fault ends the comprehension.
\<close>

fun comprehension :: "('a \<Rightarrow> fault + 'b) \<Rightarrow> 'a list \<Rightarrow> fault + 'b list" where
  "comprehension f [] = Inr []"
| "comprehension f (x # xs) =
     (case f x of
        Inl e \<Rightarrow> Inl e
      | Inr y \<Rightarrow> (case comprehension f xs of Inl e \<Rightarrow> Inl e | Inr ys \<Rightarrow> Inr (y # ys)))"

text \<open>
  \<^verbatim>\<open>xs[start:stop]\<close>: a negative bound counts from the end, and both bounds are
  clamped to the list.
\<close>

definition slice_bound :: "nat \<Rightarrow> int \<Rightarrow> nat" where
  "slice_bound n i = (if i < 0 then nat (max 0 (int n + i)) else min (nat i) n)"

definition slice :: "int \<Rightarrow> int \<Rightarrow> 'a list \<Rightarrow> 'a list" where
  "slice start stop xs =
     (let lo = slice_bound (length xs) start; hi = slice_bound (length xs) stop
      in take (hi - lo) (drop lo xs))"

text \<open>
  An embedding vector. The library computes in floating point; the model computes in
  exact rational arithmetic.
\<close>

type_synonym vec = "rat list"

text \<open>\<^verbatim>\<open>np.any(v)\<close>: some component is not zero.\<close>

definition np_any :: "vec \<Rightarrow> bool" where
  "np_any v = list_ex (\<lambda>x. x \<noteq> 0) v"

text \<open>
  The value of \<^verbatim>\<open>np.mean(vs, axis=0)\<close> on a list of vectors: the mean of an empty
  list is the scalar \<^verbatim>\<open>nan\<close> (numpy warns and returns it), the mean of a non-empty
  list of vectors of one dimension is their component-wise arithmetic mean, and vectors
  of different dimensions are refused.
\<close>

datatype ndarray = NaN | Vector vec

definition mean :: "vec list \<Rightarrow> fault + ndarray" where
  "mean vs =
     (if vs = [] then Inr NaN
      else if list_all (\<lambda>v. length v = length (hd vs)) vs
      then Inr (Vector (map (\<lambda>j. sum_list (map (\<lambda>v. v ! j) vs) / of_nat (length vs))
                          [0..<length (hd vs)]))
      else Inl ValueError)"

text \<open>
  \<^verbatim>\<open>np.vstack(rows)\<close>: every row is made two-dimensional (a scalar becomes a row of
  width one) and the rows are stacked; an empty list and rows of different widths are
  refused.
\<close>

fun width :: "ndarray \<Rightarrow> nat" where
  "width NaN = 1"
| "width (Vector v) = length v"

definition vstack :: "ndarray list \<Rightarrow> fault + ndarray list" where
  "vstack rs =
     (if rs = [] then Inl ValueError
      else if list_all (\<lambda>r. width r = width (hd rs)) rs then Inr rs
      else Inl ValueError)"

text \<open>\<^verbatim>\<open>np.unique(labels)\<close>: the distinct values, in increasing order.\<close>

definition unique :: "int list \<Rightarrow> int list" where
  "unique labels = sort (remdups labels)"

text \<open>\<^verbatim>\<open>np.where(labels == cluster_id)[0]\<close>: the positions holding the value.\<close>

definition where_eq :: "int list \<Rightarrow> int \<Rightarrow> nat list" where
  "where_eq labels cluster_id = filter (\<lambda>i. labels ! i = cluster_id) [0..<length labels]"

text \<open>
  A Python \<^verbatim>\<open>dict\<close> with string keys: the items in insertion order. Storing under a
  key that is present replaces the value and keeps the key's position.
\<close>

type_synonym 'v dict = "(string \<times> 'v) list"

fun setitem :: "string \<Rightarrow> 'v \<Rightarrow> 'v dict \<Rightarrow> 'v dict" where
  "setitem k v [] = [(k, v)]"
| "setitem k v ((k', v') # d) =
     (if k' = k then (k, v) # d else (k', v') # setitem k v d)"

definition keys :: "'v dict \<Rightarrow> string list" where
  "keys d = map fst d"

definition contains :: "'v dict \<Rightarrow> string \<Rightarrow> bool" where
  "contains d k = (map_of d k \<noteq> None)"

section \<open>The table of animals\<close>

text \<open>
  \<^verbatim>\<open>ndf = df.iloc[:, 1:-1].to_numpy()\<close>. The table is given by its rows, each the
  list of the values of its columns; the column slice is taken in every row.
\<close>

definition ndf :: "'a list list \<Rightarrow> 'a list list" where
  "ndf df = map (slice 1 (- 1)) df"

section \<open>The sweep over cluster counts\<close>

text \<open>\<^verbatim>\<open>k_range = range(2,20)\<close>\<close>

definition k_range :: "nat list" where
  "k_range = [2..<20]"

text \<open>
  The loop
  \<^verbatim>\<open>
  for k in tqdm(k_range):
      kmeans = KMeans(n_clusters=k)
      labels = kmeans.fit_predict(X)
      score = silhouette_score(X, labels, metric='euclidean')
      scores.append((k, score))
  \<close>
  over the candidates still to come, from the list \<^verbatim>\<open>scores\<close> built so far. The two
  library calls are parameters: \<open>fit_predict k X\<close> is
  \<^verbatim>\<open>KMeans(n_clusters=k).fit_predict(X)\<close> and \<open>silhouette_score X labels metric\<close> is
  the library function of that name; either may raise. The result is the list
  \<^verbatim>\<open>scores\<close> when the loop ends, and the fault that ended it, if any.
\<close>

fun sweep ::
  "(nat \<Rightarrow> 'x \<Rightarrow> fault + 'l) \<Rightarrow> ('x \<Rightarrow> 'l \<Rightarrow> string \<Rightarrow> fault + 's) \<Rightarrow> 'x \<Rightarrow>
   nat list \<Rightarrow> (nat \<times> 's) list \<Rightarrow> (nat \<times> 's) list \<times> fault option" where
  "sweep fit_predict silhouette_score X [] scores = (scores, None)"
| "sweep fit_predict silhouette_score X (k # ks) scores =
     (case fit_predict k X of
        Inl e \<Rightarrow> (scores, Some e)
      | Inr labels \<Rightarrow>
          (case silhouette_score X labels ''euclidean'' of
             Inl e \<Rightarrow> (scores, Some e)
           | Inr score \<Rightarrow>
               sweep fit_predict silhouette_score X ks (scores @ [(k, score)])))"

text \<open>\<^verbatim>\<open>scores = []\<close> followed by the loop over \<^verbatim>\<open>k_range\<close>.\<close>

definition silhouette_sweep ::
  "(nat \<Rightarrow> 'x \<Rightarrow> fault + 'l) \<Rightarrow> ('x \<Rightarrow> 'l \<Rightarrow> string \<Rightarrow> fault + 's) \<Rightarrow> 'x \<Rightarrow>
   (nat \<times> 's) list \<times> fault option" where
  "silhouette_sweep fit_predict silhouette_score X =
     sweep fit_predict silhouette_score X k_range []"

section \<open>Top terms of the k-means clusters\<close>

definition true_k :: nat where
  "true_k = 10"

definition num_words :: nat where
  "num_words = 5"

text \<open>
  \<^verbatim>\<open>centroids = model.cluster_centers_.argsort()[:, ::-1]\<close>: every row of the centroid
  matrix is replaced by the indices that sort it, reversed. The library's \<^verbatim>\<open>argsort\<close>
  of one row is a parameter.
\<close>

definition centroids :: "('w list \<Rightarrow> nat list) \<Rightarrow> 'w list list \<Rightarrow> nat list list" where
  "centroids argsort cluster_centers = map (\<lambda>row. rev (argsort row)) cluster_centers"

text \<open>\<^verbatim>\<open>[terms[j] for j in centroids[i, :num_words]]\<close>\<close>

definition top_terms :: "nat list list \<Rightarrow> string list \<Rightarrow> nat \<Rightarrow> fault + string list" where
  "top_terms cs terms i =
     (case index cs i of
        Inl e \<Rightarrow> Inl e
      | Inr row \<Rightarrow> comprehension (index terms) (take num_words row))"

text \<open>
  The loop \<^verbatim>\<open>for i in tqdm(range(true_k)): print(f'Cluster {i}: {[...]}')\<close> over the
  indices still to come: the printed lines, each a cluster index with its list of terms,
  and the fault that ended the loop, if any.
\<close>

fun print_terms ::
  "nat list list \<Rightarrow> string list \<Rightarrow> nat list \<Rightarrow> (nat \<times> string list) list \<times> fault option" where
  "print_terms cs terms [] = ([], None)"
| "print_terms cs terms (i # rest) =
     (case top_terms cs terms i of
        Inl e \<Rightarrow> ([], Some e)
      | Inr ts \<Rightarrow> (case print_terms cs terms rest of (out, r) \<Rightarrow> ((i, ts) # out, r)))"

definition print_cluster_terms ::
  "('w list \<Rightarrow> nat list) \<Rightarrow> 'w list list \<Rightarrow> string list \<Rightarrow>
   (nat \<times> string list) list \<times> fault option" where
  "print_cluster_terms argsort cluster_centers terms =
     print_terms (centroids argsort cluster_centers) terms [0..<true_k]"

text \<open>
  An \<^verbatim>\<open>argsort\<close> for the examples: the indices of a row, sorted by the value they
  hold, equal values by index.
\<close>

definition stable_argsort :: "'w::linorder list \<Rightarrow> nat list" where
  "stable_argsort row = sort_key (\<lambda>j. row ! j) [0..<length row]"

section \<open>Word and sentence embeddings\<close>

text \<open>
  \<^verbatim>\<open>raw_text.replace(',', ' ').replace('(', ' ').replace(')', ' ').replace('\n','').replace('.',' .')\<close>
\<close>

definition clean :: "string \<Rightarrow> string" where
  "clean text =
     replace (CHR ''.'') '' .'' (replace (CHR 0x0A) [] (replace (CHR '')'') '' ''
       (replace (CHR ''('') '' '' (replace (CHR '','') '' '' text))))"

text \<open>
  The dictionary comprehension
  \<^verbatim>\<open>
  words = {word.lower(): nlp(word).vector
           for word in set(raw_text.split()) if np.any(nlp(word).vector)}
  \<close>
  over the words still to come, from the dictionary built so far. \<open>nlp word\<close> is
  \<^verbatim>\<open>nlp(word).vector\<close>, the language model's vector of a string; the list of words is
  the set \<^verbatim>\<open>set(raw_text.split())\<close> in the order its iterator yields it.
\<close>

fun words_from :: "(string \<Rightarrow> vec) \<Rightarrow> string list \<Rightarrow> vec dict \<Rightarrow> vec dict" where
  "words_from nlp [] d = d"
| "words_from nlp (word # rest) d =
     (if np_any (nlp word) then words_from nlp rest (setitem (lower word) (nlp word) d)
      else words_from nlp rest d)"

definition words :: "(string \<Rightarrow> vec) \<Rightarrow> string list \<Rightarrow> vec dict" where
  "words nlp tokens = words_from nlp tokens []"

text \<open>
  A language model for the examples: a finite table of vectors, and a zero vector for
  every other string.
\<close>

definition table_nlp :: "(string \<times> vec) list \<Rightarrow> string \<Rightarrow> vec" where
  "table_nlp t w = (case map_of t w of Some v \<Rightarrow> v | None \<Rightarrow> [0])"

text \<open>
  \<^verbatim>\<open>[words[w] for w in phrase if w in words]\<close>. The phrase is a string, so \<^verbatim>\<open>w\<close>
  runs over its characters, each a string of length one.
\<close>

definition phrase_vectors :: "vec dict \<Rightarrow> string \<Rightarrow> vec list" where
  "phrase_vectors ws phrase =
     map (\<lambda>w. the (map_of ws [w])) (filter (\<lambda>w. contains ws [w]) phrase)"

text \<open>The condition of the comprehension: \<^verbatim>\<open>len(phrase.split()) >= 5\<close>.\<close>

definition retained :: "string \<Rightarrow> bool" where
  "retained phrase = (5 \<le> length (split_ws phrase))"

text \<open>
  \<^verbatim>\<open>
  X = np.vstack([np.mean([words[w] for w in phrase if w in words], axis=0)
                 for phrase in phrases if len(phrase.split()) >= 5])
  \<close>
\<close>

definition sentence_rows :: "vec dict \<Rightarrow> string list \<Rightarrow> fault + ndarray list" where
  "sentence_rows ws ps = comprehension (\<lambda>phrase. mean (phrase_vectors ws phrase)) (filter retained ps)"

definition sentence_X :: "vec dict \<Rightarrow> string list \<Rightarrow> fault + ndarray list" where
  "sentence_X ws ps =
     (case sentence_rows ws ps of Inl e \<Rightarrow> Inl e | Inr rows \<Rightarrow> vstack rows)"

text \<open>
  The sentence embedding the notebook describes ("the average of word vectors for each
  word appearing in the sentence"): the mean over the words of the phrase that are keys
  of the dictionary.
\<close>

definition documented_word_vectors :: "vec dict \<Rightarrow> string \<Rightarrow> vec list" where
  "documented_word_vectors ws phrase =
     map (\<lambda>w. the (map_of ws w)) (filter (\<lambda>w. contains ws w) (split_ws phrase))"

section \<open>Printing the members of the clusters\<close>

text \<open>A printed line: \<^verbatim>\<open>Cluster <id>\<close>, or a list of members.\<close>

datatype line = Cluster int | Members "string list"

text \<open>
  The loop
  \<^verbatim>\<open>
  for cluster_id in np.unique(model.labels_):
      if cluster_id >= 0:
          print(f"Cluster {cluster_id}")
          print([items[i] for i in np.where(model.labels_ == cluster_id)[0]])
  \<close>
  over the cluster ids still to come: the printed lines, and the fault that ended the
  loop, if any.
\<close>

fun print_clusters :: "string list \<Rightarrow> int list \<Rightarrow> int list \<Rightarrow> line list \<times> fault option" where
  "print_clusters items labels [] = ([], None)"
| "print_clusters items labels (cluster_id # rest) =
     (if cluster_id \<ge> 0 then
        (case comprehension (index items) (where_eq labels cluster_id) of
           Inl e \<Rightarrow> ([Cluster cluster_id], Some e)
         | Inr ms \<Rightarrow>
             (case print_clusters items labels rest of
                (out, r) \<Rightarrow> (Cluster cluster_id # Members ms # out, r)))
      else print_clusters items labels rest)"

text \<open>The first loop prints phrases: \<^verbatim>\<open>phrases[i]\<close>.\<close>

definition print_phrase_clusters :: "string list \<Rightarrow> int list \<Rightarrow> line list \<times> fault option" where
  "print_phrase_clusters ps labels = print_clusters ps labels (unique labels)"

text \<open>The second loop prints words: \<^verbatim>\<open>list(words.keys())[i]\<close>.\<close>

definition print_word_clusters :: "vec dict \<Rightarrow> int list \<Rightarrow> line list \<times> fault option" where
  "print_word_clusters ws labels = print_clusters (keys ws) labels (unique labels)"

section \<open>The cells as sequences of operations\<close>

text \<open>
  A second model follows every code cell of the notebook operation by operation, to
  observe what a cell does around a fault. The values are those of the Python
  interpreter and of the libraries; the model does not look into them (\<open>'v\<close>). What a
  cell does is recorded as a list of events, in order: an operation of the interpreter
  or of a library with the values of its operands, the iteration of a value, the test of
  a value as a condition, the assignment of a variable of the session, and a fault.
\<close>

datatype 'v event =
    Called string "'v list"
  | Iterated 'v
  | Tested 'v
  | Assigned string 'v
  | Faulted fault

text \<open>The session: the events so far, and the variables that are bound.\<close>

record 'v session =
  trace :: "'v event list"
  env :: "string \<Rightarrow> 'v option"

text \<open>
  The interpreter and the libraries, as parameters. \<open>call I name vs n\<close> is the outcome of
  the operation \<open>name\<close> on the operand values \<open>vs\<close> when \<open>n\<close> events have happened, a value
  or a fault; the same operation may succeed at one moment and raise at another.
  \<open>iterate\<close> gives the elements of an iterable, \<open>truth\<close> the truth value of a condition,
  and \<open>literal\<close> the value of a literal.
\<close>

record 'v interpreter =
  call :: "string \<Rightarrow> 'v list \<Rightarrow> nat \<Rightarrow> fault + 'v"
  iterate :: "'v \<Rightarrow> nat \<Rightarrow> fault + 'v list"
  truth :: "'v \<Rightarrow> nat \<Rightarrow> fault + bool"
  literal :: "string \<Rightarrow> 'v"

text \<open>
  A piece of a cell maps the session to its outcome, a value or the fault that ended it,
  and the session it leaves behind.
\<close>

type_synonym ('v, 'a) prog = "'v session \<Rightarrow> (fault + 'a) \<times> 'v session"

definition result :: "'a \<Rightarrow> ('v, 'a) prog" where
  "result x s = (Inr x, s)"

text \<open>
  One piece after another. Python has no other way to go on after a fault than a
  \<^verbatim>\<open>try\<close> statement, and the notebook has none: the second piece runs only when
  the first one ended without a fault.
\<close>

definition andthen :: "('v, 'a) prog \<Rightarrow> ('a \<Rightarrow> ('v, 'b) prog) \<Rightarrow> ('v, 'b) prog" where
  "andthen p f s = (case p s of (Inl e, s') \<Rightarrow> (Inl e, s') | (Inr x, s') \<Rightarrow> f x s')"

definition raise :: "fault \<Rightarrow> ('v, 'a) prog" where
  "raise e s = (Inl e, s\<lparr>trace := trace s @ [Faulted e]\<rparr>)"

text \<open>An operation of the interpreter or of a library on operand values.\<close>

definition perform :: "'v interpreter \<Rightarrow> string \<Rightarrow> 'v list \<Rightarrow> ('v, 'v) prog" where
  "perform I name vs s =
     (case call I name vs (length (trace s)) of
        Inl e \<Rightarrow> (Inl e, s\<lparr>trace := trace s @ [Called name vs, Faulted e]\<rparr>)
      | Inr v \<Rightarrow> (Inr v, s\<lparr>trace := trace s @ [Called name vs]\<rparr>))"

text \<open>The elements of an iterable, for a loop, a comprehension or a tuple of targets.\<close>

definition elements :: "'v interpreter \<Rightarrow> 'v \<Rightarrow> ('v, 'v list) prog" where
  "elements I v s =
     (case iterate I v (length (trace s)) of
        Inl e \<Rightarrow> (Inl e, s\<lparr>trace := trace s @ [Iterated v, Faulted e]\<rparr>)
      | Inr xs \<Rightarrow> (Inr xs, s\<lparr>trace := trace s @ [Iterated v]\<rparr>))"

text \<open>The truth value of a condition.\<close>

definition test :: "'v interpreter \<Rightarrow> 'v \<Rightarrow> ('v, bool) prog" where
  "test I v s =
     (case truth I v (length (trace s)) of
        Inl e \<Rightarrow> (Inl e, s\<lparr>trace := trace s @ [Tested v, Faulted e]\<rparr>)
      | Inr b \<Rightarrow> (Inr b, s\<lparr>trace := trace s @ [Tested v]\<rparr>))"

text \<open>Reading a variable raises \<^verbatim>\<open>NameError\<close> when no cell has bound it.\<close>

definition load :: "string \<Rightarrow> ('v, 'v) prog" where
  "load x s = (case env s x of None \<Rightarrow> raise NameError s | Some v \<Rightarrow> (Inr v, s))"

definition store :: "string \<Rightarrow> 'v \<Rightarrow> ('v, unit) prog" where
  "store x v s = (Inr (), s\<lparr>trace := trace s @ [Assigned x v], env := (env s)(x \<mapsto> v)\<rparr>)"

text \<open>A literal, named by its text.\<close>

definition lit :: "'v interpreter \<Rightarrow> string \<Rightarrow> ('v, 'v) prog" where
  "lit I c = result (literal I c)"

text \<open>The operands of an operation are evaluated from left to right.\<close>

fun operands :: "('v, 'v) prog list \<Rightarrow> ('v, 'v list) prog" where
  "operands [] = result []"
| "operands (p # ps) = andthen p (\<lambda>v. andthen (operands ps) (\<lambda>vs. result (v # vs)))"

text \<open>
  An expression that applies an operation: a call, a subscript, an operator, a formatted
  string. The name is the operation as the cell writes it, with \<^verbatim>\<open>_\<close> for every
  operand and the literal arguments in place; in a call the first operand is the callee.
  The built-in functions \<^verbatim>\<open>print\<close>, \<^verbatim>\<open>len\<close>, \<^verbatim>\<open>set\<close>, \<^verbatim>\<open>list\<close>, \<^verbatim>\<open>zip\<close> and
  \<^verbatim>\<open>range\<close> are always bound and are written into the name.
\<close>

definition op :: "'v interpreter \<Rightarrow> string \<Rightarrow> ('v, 'v) prog list \<Rightarrow> ('v, 'v) prog" where
  "op I name ps = andthen (operands ps) (perform I name)"

text \<open>The statements: an assignment, an expression, and the last expression of a cell,
  whose value the notebook displays.\<close>

definition assign :: "string \<Rightarrow> ('v, 'v) prog \<Rightarrow> ('v, unit) prog" where
  "assign x p = andthen p (store x)"

definition expr :: "('v, 'v) prog \<Rightarrow> ('v, unit) prog" where
  "expr p = andthen p (\<lambda>v. result ())"

definition display :: "'v interpreter \<Rightarrow> ('v, 'v) prog \<Rightarrow> ('v, unit) prog" where
  "display I p = andthen p (\<lambda>v. andthen (perform I ''display(_)'' [v]) (\<lambda>d. result ()))"

text \<open>
  An import binds a name to what the import yields; \<^verbatim>\<open>from m import a, b\<close> is one
  import for each name.
\<close>

definition import_as :: "'v interpreter \<Rightarrow> string \<Rightarrow> string \<Rightarrow> ('v, unit) prog" where
  "import_as I what name = assign name (perform I what [])"

text \<open>The statements of a cell, or of the body of a loop, in order.\<close>

fun block :: "('v, unit) prog list \<Rightarrow> ('v, unit) prog" where
  "block [] = result ()"
| "block (p # ps) = andthen p (\<lambda>u. block ps)"

fun for_each :: "'v list \<Rightarrow> ('v \<Rightarrow> ('v, unit) prog) \<Rightarrow> ('v, unit) prog" where
  "for_each [] body = result ()"
| "for_each (x # xs) body = andthen (body x) (\<lambda>u. for_each xs body)"

text \<open>
  \<^verbatim>\<open>for x in iterable: body\<close>. The loop variable is a variable of the session, assigned
  before each round.
\<close>

definition for_loop ::
  "'v interpreter \<Rightarrow> string \<Rightarrow> ('v, 'v) prog \<Rightarrow> ('v, unit) prog \<Rightarrow> ('v, unit) prog" where
  "for_loop I x iterable body =
     andthen iterable (\<lambda>v. andthen (elements I v)
       (\<lambda>xs. for_each xs (\<lambda>item. andthen (store x item) (\<lambda>u. body))))"

text \<open>\<^verbatim>\<open>if cond: body\<close>\<close>

definition if_stmt :: "'v interpreter \<Rightarrow> ('v, 'v) prog \<Rightarrow> ('v, unit) prog \<Rightarrow> ('v, unit) prog" where
  "if_stmt I cond body =
     andthen cond (\<lambda>c. andthen (test I c) (\<lambda>b. if b then body else result ()))"

text \<open>
  Comprehensions. The variable of a comprehension is local to it, so the element, the
  condition, the key and the value are functions of the item. The items are collected in
  order and the list or the dictionary is built from them at the end.
\<close>

fun gather :: "'v list \<Rightarrow> ('v \<Rightarrow> ('v, 'v list) prog) \<Rightarrow> ('v, 'v list) prog" where
  "gather [] f = result []"
| "gather (x # xs) f = andthen (f x) (\<lambda>ys. andthen (gather xs f) (\<lambda>zs. result (ys @ zs)))"

text \<open>\<^verbatim>\<open>[elt for x in iterable]\<close>\<close>

definition listcomp ::
  "'v interpreter \<Rightarrow> ('v, 'v) prog \<Rightarrow> ('v \<Rightarrow> ('v, 'v) prog) \<Rightarrow> ('v, 'v) prog" where
  "listcomp I iterable elt =
     andthen iterable (\<lambda>v. andthen (elements I v)
       (\<lambda>xs. andthen (gather xs (\<lambda>x. andthen (elt x) (\<lambda>y. result [y])))
          (perform I ''[_, ...]'')))"

text \<open>\<^verbatim>\<open>[elt for x in iterable if cond]\<close>\<close>

definition listcomp_if ::
  "'v interpreter \<Rightarrow> ('v, 'v) prog \<Rightarrow> ('v \<Rightarrow> ('v, 'v) prog) \<Rightarrow> ('v \<Rightarrow> ('v, 'v) prog) \<Rightarrow>
   ('v, 'v) prog" where
  "listcomp_if I iterable cond elt =
     andthen iterable (\<lambda>v. andthen (elements I v)
       (\<lambda>xs. andthen
          (gather xs (\<lambda>x. andthen (cond x) (\<lambda>c. andthen (test I c)
             (\<lambda>b. if b then andthen (elt x) (\<lambda>y. result [y]) else result []))))
          (perform I ''[_, ...]'')))"

text \<open>\<^verbatim>\<open>{key: val for x in iterable if cond}\<close>\<close>

definition dictcomp_if ::
  "'v interpreter \<Rightarrow> ('v, 'v) prog \<Rightarrow> ('v \<Rightarrow> ('v, 'v) prog) \<Rightarrow> ('v \<Rightarrow> ('v, 'v) prog) \<Rightarrow>
   ('v \<Rightarrow> ('v, 'v) prog) \<Rightarrow> ('v, 'v) prog" where
  "dictcomp_if I iterable cond key val =
     andthen iterable (\<lambda>v. andthen (elements I v)
       (\<lambda>xs. andthen
          (gather xs (\<lambda>x. andthen (cond x) (\<lambda>c. andthen (test I c)
             (\<lambda>b. if b then andthen (key x) (\<lambda>k. andthen (val x) (\<lambda>y. result [k, y]))
                   else result []))))
          (perform I ''{_: _, ...}'')))"

text \<open>
  \<^verbatim>\<open>x, y = p\<close>: the value is iterated, and anything but two elements raises
  \<^verbatim>\<open>ValueError\<close>.
\<close>

definition unpack2 ::
  "'v interpreter \<Rightarrow> string \<Rightarrow> string \<Rightarrow> ('v, 'v) prog \<Rightarrow> ('v, unit) prog" where
  "unpack2 I x y p =
     andthen p (\<lambda>v. andthen (elements I v)
       (\<lambda>xs. case xs of
                [a, b] \<Rightarrow> andthen (store x a) (\<lambda>u. store y b)
              | _ \<Rightarrow> raise ValueError))"

text \<open>
  The code cells follow, each with its source. A cell is numbered by its position in the
  notebook, counted from 0 over all cells. In the names of the operations the words
  newline, tab, space, comma, period and paren stand for those characters, empty for
  the empty string, and url for the address of the page.
\<close>

text \<open>An attribute access \<^verbatim>\<open>p.name\<close>.\<close>

definition attr :: "'v interpreter \<Rightarrow> ('v, 'v) prog \<Rightarrow> string \<Rightarrow> ('v, 'v) prog" where
  "attr I p name = op I (''_.'' @ name) [p]"

text \<open>
  Cell 3:
  \<^verbatim>\<open>
  import numpy as np
  import pandas as pd
  df = pd.read_table("zoo.tab")
  df.head()
  \<close>
\<close>

definition cell_3 :: "'v interpreter \<Rightarrow> ('v, unit) prog" where
  "cell_3 I = block
     [import_as I ''import numpy'' ''np'',
      import_as I ''import pandas'' ''pd'',
      assign ''df'' (op I ''_(zoo.tab)'' [attr I (load ''pd'') ''read_table'']),
      display I (op I ''_()'' [attr I (load ''df'') ''head''])]"

text \<open>
  Cell 4:
  \<^verbatim>\<open>
  df.describe()
  \<close>
\<close>

definition cell_4 :: "'v interpreter \<Rightarrow> ('v, unit) prog" where
  "cell_4 I = block [display I (op I ''_()'' [attr I (load ''df'') ''describe''])]"

text \<open>
  Cell 5:
  \<^verbatim>\<open>
  # transform DataFrame to a NumPy matrix
  ndf = df.iloc[:, 1:-1].to_numpy()
  ndf
  \<close>
\<close>

definition cell_5 :: "'v interpreter \<Rightarrow> ('v, unit) prog" where
  "cell_5 I = block
     [assign ''ndf''
        (op I ''_()'' [attr I (op I ''_[:, 1:-1]'' [attr I (load ''df'') ''iloc'']) ''to_numpy'']),
      display I (load ''ndf'')]"

text \<open>
  Cell 7:
  \<^verbatim>\<open>
  %matplotlib inline
  from scipy.cluster.hierarchy import dendrogram, linkage
  import matplotlib
  import matplotlib.pyplot as plt
  matplotlib.rcParams['figure.figsize'] = (20.0, 40.0)
  model = linkage(ndf, method='complete', metric='euclidean')
  labels = df.name.values + ' : ' + df.type.values
  plot  = dendrogram(model, labels=labels, orientation='right', leaf_font_size=20)
  plt.show()
  \<close>
\<close>

definition cell_7 :: "'v interpreter \<Rightarrow> ('v, unit) prog" where
  "cell_7 I = block
     [expr (op I ''%matplotlib inline'' []),
      import_as I ''from scipy.cluster.hierarchy import dendrogram'' ''dendrogram'',
      import_as I ''from scipy.cluster.hierarchy import linkage'' ''linkage'',
      import_as I ''import matplotlib'' ''matplotlib'',
      import_as I ''import matplotlib.pyplot'' ''plt'',
      expr (op I ''_[figure.figsize] = _''
              [attr I (load ''matplotlib'') ''rcParams'', lit I ''(20.0, 40.0)'']),
      assign ''model''
        (op I ''_(_, method=complete, metric=euclidean)'' [load ''linkage'', load ''ndf'']),
      assign ''labels''
        (op I ''_ + _''
           [op I ''_ + _'' [attr I (attr I (load ''df'') ''name'') ''values'', lit I '' : ''],
            attr I (attr I (load ''df'') ''type'') ''values'']),
      assign ''plot''
        (op I ''_(_, labels=_, orientation=right, leaf_font_size=20)''
           [load ''dendrogram'', load ''model'', load ''labels'']),
      display I (op I ''_()'' [attr I (load ''plt'') ''show''])]"

text \<open>
  Cell 10:
  \<^verbatim>\<open>
  import numpy as np
  import matplotlib.pyplot as plt
  from mpl_toolkits.mplot3d import Axes3D
  from sklearn.cluster import KMeans
  from sklearn.datasets import make_blobs
  true_number_of_clusters = 15
  # generate an artificial dataset
  X, y = make_blobs(n_samples=1000, n_features=3, centers=true_number_of_clusters)
  \<close>
\<close>

definition cell_10 :: "'v interpreter \<Rightarrow> ('v, unit) prog" where
  "cell_10 I = block
     [import_as I ''import numpy'' ''np'',
      import_as I ''import matplotlib.pyplot'' ''plt'',
      import_as I ''from mpl_toolkits.mplot3d import Axes3D'' ''Axes3D'',
      import_as I ''from sklearn.cluster import KMeans'' ''KMeans'',
      import_as I ''from sklearn.datasets import make_blobs'' ''make_blobs'',
      assign ''true_number_of_clusters'' (lit I ''15''),
      unpack2 I ''X'' ''y''
        (op I ''_(n_samples=1000, n_features=3, centers=_)''
           [load ''make_blobs'', load ''true_number_of_clusters''])]"

text \<open>
  Cell 11:
  \<^verbatim>\<open>
  %matplotlib inline
  fig = plt.figure(figsize=(10,10))
  ax = Axes3D(fig, auto_add_to_figure=False)
  fig.add_axes(ax)
  ax.scatter(X[:, 0], X[:, 1], X[:, 2])
  \<close>
\<close>

definition cell_11 :: "'v interpreter \<Rightarrow> ('v, unit) prog" where
  "cell_11 I = block
     [expr (op I ''%matplotlib inline'' []),
      assign ''fig'' (op I ''_(figsize=(10,10))'' [attr I (load ''plt'') ''figure'']),
      assign ''ax'' (op I ''_(_, auto_add_to_figure=False)'' [load ''Axes3D'', load ''fig'']),
      expr (op I ''_(_)'' [attr I (load ''fig'') ''add_axes'', load ''ax'']),
      display I
        (op I ''_(_, _, _)''
           [attr I (load ''ax'') ''scatter'', op I ''_[:, 0]'' [load ''X''],
            op I ''_[:, 1]'' [load ''X''], op I ''_[:, 2]'' [load ''X'']])]"

text \<open>
  Cell 12:
  \<^verbatim>\<open>
  model = KMeans(n_clusters=9)
  model.fit(X)
  # assign points to clusters
  labels = model.predict(X)
  # print the coordinates of centroids
  print(model.cluster_centers_)
  labels[:10]
  \<close>
\<close>

definition cell_12 :: "'v interpreter \<Rightarrow> ('v, unit) prog" where
  "cell_12 I = block
     [assign ''model'' (op I ''_(n_clusters=9)'' [load ''KMeans'']),
      expr (op I ''_(_)'' [attr I (load ''model'') ''fit'', load ''X'']),
      assign ''labels'' (op I ''_(_)'' [attr I (load ''model'') ''predict'', load ''X'']),
      expr (op I ''print(_)'' [attr I (load ''model'') ''cluster_centers_'']),
      display I (op I ''_[:10]'' [load ''labels''])]"

text \<open>
  Cell 13:
  \<^verbatim>\<open>
  fig = plt.figure(figsize=(10,10))
  ax = Axes3D(fig, auto_add_to_figure=False)
  fig.add_axes(ax)
  ax.scatter(X[:, 0], X[:, 1], X[:, 2], c=labels)
  \<close>
\<close>

definition cell_13 :: "'v interpreter \<Rightarrow> ('v, unit) prog" where
  "cell_13 I = block
     [assign ''fig'' (op I ''_(figsize=(10,10))'' [attr I (load ''plt'') ''figure'']),
      assign ''ax'' (op I ''_(_, auto_add_to_figure=False)'' [load ''Axes3D'', load ''fig'']),
      expr (op I ''_(_)'' [attr I (load ''fig'') ''add_axes'', load ''ax'']),
      display I
        (op I ''_(_, _, _, c=_)''
           [attr I (load ''ax'') ''scatter'', op I ''_[:, 0]'' [load ''X''],
            op I ''_[:, 1]'' [load ''X''], op I ''_[:, 2]'' [load ''X''], load ''labels''])]"

text \<open>
  Cell 15:
  \<^verbatim>\<open>
  from sklearn.metrics import silhouette_score
  from tqdm.notebook import tqdm
  k_range = range(2,20)
  scores = []
  for k in tqdm(k_range):
      kmeans = KMeans(n_clusters=k)
      labels = kmeans.fit_predict(X)
      score = silhouette_score(X, labels, metric='euclidean')
      scores.append((k, score))
  ax_x, ax_y = zip(*scores)
  fig = plt.figure(figsize=(10,5))
  ax = plt.axes()
  plt.xticks(k_range)
  plt.grid()
  plt.plot(ax_x, ax_y)
  \<close>
\<close>

definition cell_15 :: "'v interpreter \<Rightarrow> ('v, unit) prog" where
  "cell_15 I = block
     [import_as I ''from sklearn.metrics import silhouette_score'' ''silhouette_score'',
      import_as I ''from tqdm.notebook import tqdm'' ''tqdm'',
      assign ''k_range'' (op I ''range(2,20)'' []),
      assign ''scores'' (lit I ''[]''),
      for_loop I ''k'' (op I ''_(_)'' [load ''tqdm'', load ''k_range''])
        (block
           [assign ''kmeans'' (op I ''_(n_clusters=_)'' [load ''KMeans'', load ''k'']),
            assign ''labels'' (op I ''_(_)'' [attr I (load ''kmeans'') ''fit_predict'', load ''X'']),
            assign ''score''
              (op I ''_(_, _, metric=euclidean)''
                 [load ''silhouette_score'', load ''X'', load ''labels'']),
            expr (op I ''_(_)''
                    [attr I (load ''scores'') ''append'',
                     op I ''(_, _)'' [load ''k'', load ''score'']])]),
      unpack2 I ''ax_x'' ''ax_y'' (op I ''zip(*_)'' [load ''scores'']),
      assign ''fig'' (op I ''_(figsize=(10,5))'' [attr I (load ''plt'') ''figure'']),
      assign ''ax'' (op I ''_()'' [attr I (load ''plt'') ''axes'']),
      expr (op I ''_(_)'' [attr I (load ''plt'') ''xticks'', load ''k_range'']),
      expr (op I ''_()'' [attr I (load ''plt'') ''grid'']),
      display I (op I ''_(_, _)'' [attr I (load ''plt'') ''plot'', load ''ax_x'', load ''ax_y''])]"

text \<open>
  Cell 19:
  \<^verbatim>\<open>
  import spacy
  nlp = spacy.load('en_core_web_md')
  \<close>
\<close>

definition cell_19 :: "'v interpreter \<Rightarrow> ('v, unit) prog" where
  "cell_19 I = block
     [import_as I ''import spacy'' ''spacy'',
      assign ''nlp'' (op I ''_(en_core_web_md)'' [attr I (load ''spacy'') ''load''])]"

text \<open>
  Cell 21:
  \<^verbatim>\<open>
  king = nlp('king')
  print(king.vector)
  \<close>
\<close>

definition cell_21 :: "'v interpreter \<Rightarrow> ('v, unit) prog" where
  "cell_21 I = block
     [assign ''king'' (op I ''_(king)'' [load ''nlp'']),
      expr (op I ''print(_)'' [attr I (load ''king'') ''vector''])]"

text \<open>
  Cell 22:
  \<^verbatim>\<open>
  words = ['king','queen','kingdom','emperor','spades','Lear','milk']
  for word in words:
      print(f"{king} {word} \t {king.similarity(nlp(word))} ")
  \<close>
\<close>

definition cell_22 :: "'v interpreter \<Rightarrow> ('v, unit) prog" where
  "cell_22 I = block
     [assign ''words'' (lit I ''[king, queen, kingdom, emperor, spades, Lear, milk]''),
      for_loop I ''word'' (load ''words'')
        (expr (op I ''print(_)''
           [op I ''f{_} {_} tab {_} ''
              [load ''king'', load ''word'',
               op I ''_(_)''
                 [attr I (load ''king'') ''similarity'',
                  op I ''_(_)'' [load ''nlp'', load ''word'']]]]))]"

text \<open>
  Cell 24:
  \<^verbatim>\<open>
  from bs4 import BeautifulSoup
  import requests
  respond = requests.get("https://en.wikipedia.org/wiki/Pozna\<dots>")
  soup = BeautifulSoup(respond.text, "html")
  page = soup.find_all('p')
  raw_text = ''.join([paragraph.text for paragraph in page])
  print(raw_text[:1000])
  \<close>
\<close>

definition cell_24 :: "'v interpreter \<Rightarrow> ('v, unit) prog" where
  "cell_24 I = block
     [import_as I ''from bs4 import BeautifulSoup'' ''BeautifulSoup'',
      import_as I ''import requests'' ''requests'',
      assign ''respond'' (op I ''_(url)'' [attr I (load ''requests'') ''get'']),
      assign ''soup'' (op I ''_(_, html)'' [load ''BeautifulSoup'', attr I (load ''respond'') ''text'']),
      assign ''page'' (op I ''_(p)'' [attr I (load ''soup'') ''find_all'']),
      assign ''raw_text''
        (op I ''_(_)''
           [attr I (lit I []) ''join'',
            listcomp I (load ''page'') (\<lambda>paragraph. attr I (result paragraph) ''text'')]),
      expr (op I ''print(_)'' [op I ''_[:1000]'' [load ''raw_text'']])]"

text \<open>
  Cell 26:
  \<^verbatim>\<open>
  from sklearn.feature_extraction.text import TfidfVectorizer
  from sklearn.cluster import KMeans
  phrases = raw_text.replace('\n','').split('.')
  vectorizer = TfidfVectorizer(stop_words='english')
  X = vectorizer.fit_transform(phrases)
  print('\nVocabulary')
  print(vectorizer.get_feature_names())
  print('\nList of stopwords')
  print(vectorizer.get_stop_words())
  print('\nDocument in the vector space')
  print(X.todense())
  \<close>
\<close>

definition cell_26 :: "'v interpreter \<Rightarrow> ('v, unit) prog" where
  "cell_26 I = block
     [import_as I ''from sklearn.feature_extraction.text import TfidfVectorizer'' ''TfidfVectorizer'',
      import_as I ''from sklearn.cluster import KMeans'' ''KMeans'',
      assign ''phrases''
        (op I ''_(.)''
           [attr I (op I ''_(newline, empty)'' [attr I (load ''raw_text'') ''replace'']) ''split'']),
      assign ''vectorizer'' (op I ''_(stop_words=english)'' [load ''TfidfVectorizer'']),
      assign ''X'' (op I ''_(_)'' [attr I (load ''vectorizer'') ''fit_transform'', load ''phrases'']),
      expr (op I ''print(_)'' [lit I ''newline Vocabulary'']),
      expr (op I ''print(_)'' [op I ''_()'' [attr I (load ''vectorizer'') ''get_feature_names'']]),
      expr (op I ''print(_)'' [lit I ''newline List of stopwords'']),
      expr (op I ''print(_)'' [op I ''_()'' [attr I (load ''vectorizer'') ''get_stop_words'']]),
      expr (op I ''print(_)'' [lit I ''newline Document in the vector space'']),
      expr (op I ''print(_)'' [op I ''_()'' [attr I (load ''X'') ''todense'']])]"

text \<open>
  Cell 27:
  \<^verbatim>\<open>
  X.shape
  \<close>
\<close>

definition cell_27 :: "'v interpreter \<Rightarrow> ('v, unit) prog" where
  "cell_27 I = block [display I (attr I (load ''X'') ''shape'')]"

text \<open>
  Cell 29:
  \<^verbatim>\<open>
  from tqdm.notebook import tqdm
  true_k = 10
  num_words = 5
  model = KMeans(n_clusters=true_k, max_iter=1000)
  model.fit(X)
  centroids = model.cluster_centers_.argsort()[:, ::-1]
  terms = vectorizer.get_feature_names()
  for i in tqdm(range(true_k)):
      print (f'Cluster {i}: {[terms[j] for j in centroids[i, :num_words]]}')
  \<close>
\<close>

definition cell_29 :: "'v interpreter \<Rightarrow> ('v, unit) prog" where
  "cell_29 I = block
     [import_as I ''from tqdm.notebook import tqdm'' ''tqdm'',
      assign ''true_k'' (lit I ''10''),
      assign ''num_words'' (lit I ''5''),
      assign ''model'' (op I ''_(n_clusters=_, max_iter=1000)'' [load ''KMeans'', load ''true_k'']),
      expr (op I ''_(_)'' [attr I (load ''model'') ''fit'', load ''X'']),
      assign ''centroids''
        (op I ''_[:, ::-1]''
           [op I ''_()'' [attr I (attr I (load ''model'') ''cluster_centers_'') ''argsort'']]),
      assign ''terms'' (op I ''_()'' [attr I (load ''vectorizer'') ''get_feature_names'']),
      for_loop I ''i'' (op I ''_(_)'' [load ''tqdm'', op I ''range(_)'' [load ''true_k'']])
        (expr (op I ''print(_)''
           [op I ''fCluster {_}: {_}''
              [load ''i'',
               listcomp I (op I ''_[_, :_]'' [load ''centroids'', load ''i'', load ''num_words''])
                 (\<lambda>j. op I ''_[_]'' [load ''terms'', result j])]]))]"

text \<open>
  Cell 31:
  \<^verbatim>\<open>
  raw_text = raw_text.replace(',', ' ').replace('(', ' ').replace(')', ' ').replace('\n','').replace('.',' .')
  \<close>
\<close>

definition cell_31 :: "'v interpreter \<Rightarrow> ('v, unit) prog" where
  "cell_31 I = block
     [assign ''raw_text''
        (op I ''_(period, space period)''
           [attr I (op I ''_(newline, empty)''
              [attr I (op I ''_(close paren, space)''
                 [attr I (op I ''_(open paren, space)''
                    [attr I (op I ''_(comma, space)'' [attr I (load ''raw_text'') ''replace''])
                       ''replace''])
                    ''replace''])
                 ''replace''])
              ''replace''])]"

text \<open>
  Cell 32:
  \<^verbatim>\<open>
  words = {
      word.lower(): nlp(word).vector
      for word in set(raw_text.split())
      if np.any(nlp(word).vector)
  }
  \<close>
\<close>

definition cell_32 :: "'v interpreter \<Rightarrow> ('v, unit) prog" where
  "cell_32 I = block
     [assign ''words''
        (dictcomp_if I (op I ''set(_)'' [op I ''_()'' [attr I (load ''raw_text'') ''split'']])
           (\<lambda>word. op I ''_(_)''
              [attr I (load ''np'') ''any'',
               attr I (op I ''_(_)'' [load ''nlp'', result word]) ''vector''])
           (\<lambda>word. op I ''_()'' [attr I (result word) ''lower''])
           (\<lambda>word. attr I (op I ''_(_)'' [load ''nlp'', result word]) ''vector''))]"

text \<open>
  Cell 34:
  \<^verbatim>\<open>
  X = np.vstack(
      [
          np.mean([words[w] for w in phrase if w in words], axis=0)
          for phrase in phrases
          if len(phrase.split()) >= 5
      ]
  )
  \<close>
\<close>

definition cell_34 :: "'v interpreter \<Rightarrow> ('v, unit) prog" where
  "cell_34 I = block
     [assign ''X''
        (op I ''_(_)''
           [attr I (load ''np'') ''vstack'',
            listcomp_if I (load ''phrases'')
              (\<lambda>phrase. op I ''_ >= 5'' [op I ''len(_)'' [op I ''_()'' [attr I (result phrase) ''split'']]])
              (\<lambda>phrase. op I ''_(_, axis=0)''
                 [attr I (load ''np'') ''mean'',
                  listcomp_if I (result phrase)
                    (\<lambda>w. op I ''_ in _'' [result w, load ''words''])
                    (\<lambda>w. op I ''_[_]'' [load ''words'', result w])])])]"

text \<open>
  Cell 35:
  \<^verbatim>\<open>
  X.shape
  \<close>
\<close>

definition cell_35 :: "'v interpreter \<Rightarrow> ('v, unit) prog" where
  "cell_35 I = block [display I (attr I (load ''X'') ''shape'')]"

text \<open>
  Cell 37:
  \<^verbatim>\<open>
  from sklearn.cluster import DBSCAN
  model = DBSCAN(eps=0.3, min_samples=3)
  model.fit(X)
  \<close>
\<close>

definition cell_37 :: "'v interpreter \<Rightarrow> ('v, unit) prog" where
  "cell_37 I = block
     [import_as I ''from sklearn.cluster import DBSCAN'' ''DBSCAN'',
      assign ''model'' (op I ''_(eps=0.3, min_samples=3)'' [load ''DBSCAN'']),
      display I (op I ''_(_)'' [attr I (load ''model'') ''fit'', load ''X''])]"

text \<open>
  Cell 39:
  \<^verbatim>\<open>
  model.labels_
  \<close>
\<close>

definition cell_39 :: "'v interpreter \<Rightarrow> ('v, unit) prog" where
  "cell_39 I = block [display I (attr I (load ''model'') ''labels_'')]"

text \<open>
  Cell 40:
  \<^verbatim>\<open>
  for cluster_id in np.unique(model.labels_):
      if cluster_id >= 0:
          print(f"Cluster {cluster_id}")
          print([phrases[i] for i in np.where(model.labels_ == cluster_id)[0]])
  \<close>
\<close>

definition cell_40 :: "'v interpreter \<Rightarrow> ('v, unit) prog" where
  "cell_40 I = block
     [for_loop I ''cluster_id''
        (op I ''_(_)'' [attr I (load ''np'') ''unique'', attr I (load ''model'') ''labels_''])
        (if_stmt I (op I ''_ >= 0'' [load ''cluster_id''])
           (block
              [expr (op I ''print(_)'' [op I ''fCluster {_}'' [load ''cluster_id'']]),
               expr (op I ''print(_)''
                 [listcomp I
                    (op I ''_[0]''
                       [op I ''_(_)''
                          [attr I (load ''np'') ''where'',
                           op I ''_ == _'' [attr I (load ''model'') ''labels_'', load ''cluster_id'']]])
                    (\<lambda>i. op I ''_[_]'' [load ''phrases'', result i])])]))]"

text \<open>
  Cell 42:
  \<^verbatim>\<open>
  X = np.vstack(words.values())
  X.shape
  \<close>
\<close>

definition cell_42 :: "'v interpreter \<Rightarrow> ('v, unit) prog" where
  "cell_42 I = block
     [assign ''X''
        (op I ''_(_)'' [attr I (load ''np'') ''vstack'', op I ''_()'' [attr I (load ''words'') ''values'']]),
      display I (attr I (load ''X'') ''shape'')]"

text \<open>
  Cell 43:
  \<^verbatim>\<open>
  model = DBSCAN(eps=0.15, min_samples=3)
  model.fit(X)
  \<close>
\<close>

definition cell_43 :: "'v interpreter \<Rightarrow> ('v, unit) prog" where
  "cell_43 I = block
     [assign ''model'' (op I ''_(eps=0.15, min_samples=3)'' [load ''DBSCAN'']),
      display I (op I ''_(_)'' [attr I (load ''model'') ''fit'', load ''X''])]"

text \<open>
  Cell 44:
  \<^verbatim>\<open>
  for cluster_id in np.unique(model.labels_):
      if cluster_id >= 0:
          print(f"Cluster {cluster_id}")
          print([list(words.keys())[i] for i in np.where(model.labels_ == cluster_id)[0]])
  \<close>
\<close>

definition cell_44 :: "'v interpreter \<Rightarrow> ('v, unit) prog" where
  "cell_44 I = block
     [for_loop I ''cluster_id''
        (op I ''_(_)'' [attr I (load ''np'') ''unique'', attr I (load ''model'') ''labels_''])
        (if_stmt I (op I ''_ >= 0'' [load ''cluster_id''])
           (block
              [expr (op I ''print(_)'' [op I ''fCluster {_}'' [load ''cluster_id'']]),
               expr (op I ''print(_)''
                 [listcomp I
                    (op I ''_[0]''
                       [op I ''_(_)''
                          [attr I (load ''np'') ''where'',
                           op I ''_ == _'' [attr I (load ''model'') ''labels_'', load ''cluster_id'']]])
                    (\<lambda>i. op I ''_[_]''
                       [op I ''list(_)'' [op I ''_()'' [attr I (load ''words'') ''keys'']],
                        result i])])]))]"

text \<open>The code cells of the notebook, in order.\<close>

definition notebook :: "'v interpreter \<Rightarrow> ('v, unit) prog list" where
  "notebook I =
     [cell_3 I, cell_4 I, cell_5 I, cell_7 I, cell_10 I, cell_11 I, cell_12 I, cell_13 I,
      cell_15 I, cell_19 I, cell_21 I, cell_22 I, cell_24 I, cell_26 I, cell_27 I, cell_29 I,
      cell_31 I, cell_32 I, cell_34 I, cell_35 I, cell_37 I, cell_39 I, cell_40 I, cell_42 I,
      cell_43 I, cell_44 I]"

section \<open>What it means that a fault is not handled\<close>

text \<open>The variables after a list of events: every assignment, in order.\<close>

fun replay :: "'v event list \<Rightarrow> (string \<Rightarrow> 'v option) \<Rightarrow> (string \<Rightarrow> 'v option)" where
  "replay [] m = m"
| "replay (Assigned x v # evs) m = replay evs (m(x \<mapsto> v))"
| "replay (ev # evs) m = replay evs m"

fun is_fault :: "'v event \<Rightarrow> bool" where
  "is_fault (Faulted e) = True"
| "is_fault ev = False"

definition fault_free :: "'v event list \<Rightarrow> bool" where
  "fault_free evs = list_all (\<lambda>ev. \<not> is_fault ev) evs"

text \<open>
  A piece of a cell propagates faults when, from every session, the events it adds and
  its outcome agree: if it ends without a fault, none of its events is a fault; if it
  ends with the fault \<open>e\<close>, then \<open>e\<close> is its last event and its only fault. So a fault
  is never followed by another operation, assignment or fault (no retry, no recovery, no
  restoring or reporting of the state, no other fault raised in its place), and is
  never swallowed. The variables it leaves behind are the ones it found, with the
  assignments among its events.
\<close>

definition propagates :: "('v, 'a) prog \<Rightarrow> bool" where
  "propagates p =
     (\<forall>s. case p s of
        (r, s') \<Rightarrow>
          (\<exists>new. trace s' = trace s @ new \<and> env s' = replay new (env s)
             \<and> (case r of
                   Inr x \<Rightarrow> fault_free new
                 | Inl e \<Rightarrow> (\<exists>pre. new = pre @ [Faulted e] \<and> fault_free pre))))"

text \<open>
  An interpreter for the examples: the data file is missing, so reading it raises, and
  every other operation yields the value 0.
\<close>

definition missing_file :: "nat interpreter" where
  "missing_file =
     \<lparr>call = (\<lambda>name vs n. if name = ''_(zoo.tab)'' then Inl FileNotFoundError else Inr 0),
      iterate = (\<lambda>v n. Inr []),
      truth = (\<lambda>v n. Inr True),
      literal = (\<lambda>c. 0)\<rparr>"

section \<open>Splitting and joining\<close>

lemma split_not_Nil: "split sep s \<noteq> []"
  by (induction s) (auto split: list.splits)

lemma join_Cons: "ps \<noteq> [] \<Longrightarrow> join sep (p # ps) = p @ sep @ join sep ps"
  by (cases ps) simp_all

lemma join_split: "join [sep] (split sep s) = s"
proof (induction s)
  case Nil
  show ?case by simp
next
  case (Cons c cs)
  obtain w ws where sp: "split sep cs = w # ws"
    using split_not_Nil [of sep cs] by (cases "split sep cs") auto
  show ?case
  proof (cases "c = sep")
    case True
    then show ?thesis
      using Cons.IH split_not_Nil [of sep cs] by (simp add: join_Cons)
  next
    case False
    then show ?thesis
      using Cons.IH sp by (cases ws) simp_all
  qed
qed

lemma join_empty: "join [] ps = concat ps"
proof (induction ps)
  case Nil
  show ?case by simp
next
  case (Cons p ps)
  then show ?case by (cases ps) simp_all
qed

lemma replace_delete: "replace old [] s = filter (\<lambda>c. c \<noteq> old) s"
  by (induction s) (simp_all add: replace_def)

lemma split_no_sep: "p \<in> set (split sep s) \<Longrightarrow> sep \<notin> set p"
proof (induction s arbitrary: p)
  case Nil
  then show ?case by simp
next
  case (Cons c cs)
  obtain w ws where sp: "split sep cs = w # ws"
    using split_not_Nil [of sep cs] by (cases "split sep cs") auto
  show ?case
  proof (cases "c = sep")
    case True
    with Cons show ?thesis by auto
  next
    case False
    with Cons.prems sp have "p = c # w \<or> p \<in> set ws" by simp
    then show ?thesis
    proof
      assume "p = c # w"
      moreover have "sep \<notin> set w" using Cons.IH [of w] sp by simp
      ultimately show ?thesis using False by simp
    next
      assume "p \<in> set ws"
      then show ?thesis using Cons.IH [of p] sp by simp
    qed
  qed
qed

lemma length_split: "length (split sep s) = Suc (length (filter (\<lambda>c. c = sep) s))"
proof (induction s)
  case Nil
  show ?case by simp
next
  case (Cons c cs)
  obtain w ws where sp: "split sep cs = w # ws"
    using split_not_Nil [of sep cs] by (cases "split sep cs") auto
  with Cons show ?case by simp
qed

lemma split_piece: "sep \<notin> set p \<Longrightarrow> split sep (p @ sep # r) = p # split sep r"
  by (induction p) auto

lemma split_no_sep_id: "sep \<notin> set p \<Longrightarrow> split sep p = [p]"
  by (induction p) auto

lemma split_join:
  "ps \<noteq> [] \<Longrightarrow> \<forall>p\<in>set ps. sep \<notin> set p \<Longrightarrow> split sep (join [sep] ps) = ps"
proof (induction ps)
  case Nil
  then show ?case by simp
next
  case (Cons p ps)
  show ?case
  proof (cases ps)
    case Nil
    with Cons.prems show ?thesis by (simp add: split_no_sep_id)
  next
    case (Cons q qs)
    with Cons.prems Cons.IH show ?thesis by (simp add: split_piece)
  qed
qed

text \<open>
  Claim C6. The phrases are the pieces between the periods of the concatenated paragraph
  texts with every newline removed: joining them with a period gives back exactly that
  text, there is one phrase more than there are periods, no phrase contains a period or a
  newline, and the phrases are the only non-empty list of period-free pieces whose join
  is that text.
\<close>

theorem C6_phrases_split_join_roundtrip:
  "join ''.'' (phrases (raw_text page)) = filter (\<lambda>c. c \<noteq> CHR 0x0A) (concat page)
   \<and> length (phrases (raw_text page)) = Suc (length (filter (\<lambda>c. c = CHR ''.'') (concat page)))
   \<and> (\<forall>p\<in>set (phrases (raw_text page)). CHR ''.'' \<notin> set p \<and> CHR 0x0A \<notin> set p)
   \<and> (\<forall>ps. ps \<noteq> [] \<and> (\<forall>p\<in>set ps. CHR ''.'' \<notin> set p)
          \<and> join ''.'' ps = filter (\<lambda>c. c \<noteq> CHR 0x0A) (concat page)
        \<longrightarrow> phrases (raw_text page) = ps)"
proof -
  define t where "t = filter (\<lambda>c. c \<noteq> CHR 0x0A) (concat page)"
  have ph: "phrases (raw_text page) = split (CHR ''.'') t"
    by (simp add: phrases_def raw_text_def join_empty replace_delete t_def)
  have a: "join ''.'' (phrases (raw_text page)) = t"
    by (simp add: ph join_split)
  have "length (filter (\<lambda>c. c = CHR ''.'') t) = length (filter (\<lambda>c. c = CHR ''.'') (concat page))"
  proof -
    have "filter (\<lambda>c. c = CHR ''.'') t = filter (\<lambda>c. c = CHR ''.'') (concat page)"
      unfolding t_def filter_filter by (rule filter_cong) auto
    then show ?thesis by simp
  qed
  then have b: "length (phrases (raw_text page)) = Suc (length (filter (\<lambda>c. c = CHR ''.'') (concat page)))"
    by (simp add: ph length_split)
  have c: "CHR ''.'' \<notin> set p \<and> CHR 0x0A \<notin> set p" if "p \<in> set (phrases (raw_text page))" for p
  proof -
    have "CHR ''.'' \<notin> set p"
      using that split_no_sep [of p "CHR ''.''" t] by (simp add: ph)
    moreover have "set p \<subseteq> set t"
    proof -
      have "set (join ''.'' (split (CHR ''.'') t)) = set t" by (simp add: join_split)
      moreover have "set q \<subseteq> set (join ''.'' qs)" if "q \<in> set qs" for q qs
        using that
      proof (induction qs)
        case Nil
        then show ?case by simp
      next
        case (Cons x xs)
        then show ?case by (cases xs) auto
      qed
      ultimately show ?thesis using that by (metis ph)
    qed
    then have "CHR 0x0A \<notin> set p" by (auto simp: t_def)
    ultimately show ?thesis by simp
  qed
  have d: "phrases (raw_text page) = ps"
    if "ps \<noteq> [] \<and> (\<forall>p\<in>set ps. CHR ''.'' \<notin> set p) \<and> join ''.'' ps = t" for ps
    using that split_join [of ps "CHR ''.''"] by (simp add: ph)
  from a b c d show ?thesis unfolding t_def by blast
qed

text \<open>
  Two paragraphs with three periods and a newline: four phrases, the last two empty.
\<close>

theorem C6_witness:
  "phrases (raw_text [''ab.c\<newline>'', ''d..'']) = [''ab'', ''cd'', [], []]"
proof -
  have "[''ab'', ''cd'', [], []] \<noteq> ([] :: string list)
     \<and> (\<forall>p\<in>set [''ab'', ''cd'', [], []]. CHR ''.'' \<notin> set p)
     \<and> join ''.'' [''ab'', ''cd'', [], []] = filter (\<lambda>c. c \<noteq> CHR 0x0A) (concat [''ab.c\<newline>'', ''d..''])"
    by simp
  then show ?thesis
    using C6_phrases_split_join_roundtrip [of "[''ab.c\<newline>'', ''d..'']"] by blast
qed

section \<open>The numeric matrix of the table\<close>

lemma slice_drop_ends: "slice 1 (- 1) xs = butlast (tl xs)"
proof (cases xs)
  case Nil
  then show ?thesis by (simp add: slice_def slice_bound_def)
next
  case (Cons x ys)
  have "butlast ys = take (length ys - 1) ys"
    by (simp add: butlast_conv_take)
  then show ?thesis
    using Cons by (simp add: slice_def slice_bound_def Let_def)
qed

lemma nth_butlast_tl:
  "j < length xs - 2 \<Longrightarrow> butlast (tl xs) ! j = xs ! (j + 1)"
  by (simp add: nth_butlast nth_tl)

text \<open>
  Claim C4. The matrix \<^verbatim>\<open>ndf\<close> has one row for every row of the table, and each of its
  rows is the table's row without its first and its last column: column \<open>j\<close> of the
  matrix is column \<open>j + 1\<close> of the table, in order, up to the second-to-last.
\<close>

theorem C4_ndf_drops_first_and_last_column:
  "length (ndf df) = length df \<and>
   (\<forall>i<length df.
      ndf df ! i = butlast (tl (df ! i)) \<and>
      length (ndf df ! i) = length (df ! i) - 2 \<and>
      (\<forall>j<length (df ! i) - 2. ndf df ! i ! j = df ! i ! (j + 1)))"
  by (simp add: ndf_def slice_drop_ends nth_butlast_tl numeral_2_eq_2)

text \<open>
  A table of two rows and four columns: the matrix keeps the two middle columns.
\<close>

theorem C4_witness:
  "length (ndf [[0::nat, 1, 2, 3], [4, 5, 6, 7]]) = 2
   \<and> ndf [[0::nat, 1, 2, 3], [4, 5, 6, 7]] ! 1 = [5, 6]
   \<and> ndf [[0::nat, 1, 2, 3], [4, 5, 6, 7]] ! 1 ! 0 = [4, 5, 6, 7] ! 1"
  using C4_ndf_drops_first_and_last_column [of "[[0::nat, 1, 2, 3], [4, 5, 6, 7]]"]
  by simp

section \<open>The sweep visits every candidate\<close>

lemma sweep_all_succeed:
  "\<forall>k\<in>set ks. fit_predict k X = Inr (L k) \<and> silhouette_score X (L k) ''euclidean'' = Inr (S k) \<Longrightarrow>
   sweep fit_predict silhouette_score X ks scores = (scores @ map (\<lambda>k. (k, S k)) ks, None)"
  by (induction ks arbitrary: scores) simp_all

lemma sweep_fit_fault:
  "\<forall>k\<in>set pre. fit_predict k X = Inr (L k) \<and> silhouette_score X (L k) ''euclidean'' = Inr (S k) \<Longrightarrow>
   fit_predict k X = Inl e \<Longrightarrow>
   sweep fit_predict silhouette_score X (pre @ k # post) scores = (scores @ map (\<lambda>k. (k, S k)) pre, Some e)"
  by (induction pre arbitrary: scores) simp_all

lemma sweep_score_fault:
  "\<forall>k\<in>set pre. fit_predict k X = Inr (L k) \<and> silhouette_score X (L k) ''euclidean'' = Inr (S k) \<Longrightarrow>
   fit_predict k X = Inr l \<Longrightarrow> silhouette_score X l ''euclidean'' = Inl e \<Longrightarrow>
   sweep fit_predict silhouette_score X (pre @ k # post) scores = (scores @ map (\<lambda>k. (k, S k)) pre, Some e)"
  by (induction pre arbitrary: scores) simp_all

text \<open>
  Claim C5. When the library calls succeed for every candidate, the sweep handles every
  \<open>k\<close> from 2 to 19 in increasing order: for each it fits k-means with \<open>k\<close> clusters,
  scores the labels with the silhouette index under the metric \<^verbatim>\<open>euclidean\<close>, and appends
  the pair of \<open>k\<close> and that score; the list of scores has 18 entries, ordered by \<open>k\<close>.
\<close>

theorem C5_sweep_scores_every_k:
  assumes "\<forall>k\<in>set k_range. fit_predict k X = Inr (L k) \<and> silhouette_score X (L k) ''euclidean'' = Inr (S k)"
  shows "silhouette_sweep fit_predict silhouette_score X = (map (\<lambda>k. (k, S k)) [2..<20], None)
    \<and> length (fst (silhouette_sweep fit_predict silhouette_score X)) = 18
    \<and> map fst (fst (silhouette_sweep fit_predict silhouette_score X)) = [2..<20]"
proof -
  have "silhouette_sweep fit_predict silhouette_score X = (map (\<lambda>k. (k, S k)) k_range, None)"
    unfolding silhouette_sweep_def
    using sweep_all_succeed [of k_range fit_predict X L silhouette_score S "[]"] assms by simp
  then show ?thesis by (simp add: k_range_def comp_def)
qed

text \<open>
  A data set given by a number, a clustering that labels \<open>k\<close> points, and a score that
  adds the number of labels to the data.
\<close>

theorem C5_witness:
  "silhouette_sweep (\<lambda>k X. Inr (replicate k X)) (\<lambda>X labels metric. Inr (length labels + X)) (3::nat)
     = (map (\<lambda>k. (k, k + 3)) [2..<20], None)
   \<and> length (fst (silhouette_sweep (\<lambda>k X. Inr (replicate k X))
        (\<lambda>X labels metric. Inr (length labels + X)) (3::nat))) = 18"
  using C5_sweep_scores_every_k
    [where fit_predict = "\<lambda>k X. Inr (replicate k X)" and X = "3::nat"
       and L = "\<lambda>k. replicate k 3"
       and silhouette_score = "\<lambda>X labels metric. Inr (length labels + X)"
       and S = "\<lambda>k. k + 3"]
  by simp

section \<open>Comprehensions\<close>

lemma comprehension_Inr:
  "comprehension f xs = Inr ys \<Longrightarrow> length ys = length xs \<and> (\<forall>i<length xs. f (xs ! i) = Inr (ys ! i))"
proof (induction xs arbitrary: ys)
  case Nil
  then show ?case by simp
next
  case (Cons x xs)
  then show ?case
    by (auto split: sum.splits simp: nth_Cons split: nat.splits)
qed

lemma comprehension_mem:
  "comprehension f xs = Inr ys \<Longrightarrow> x \<in> set xs \<Longrightarrow> f x = Inr y \<Longrightarrow> y \<in> set ys"
proof (induction xs arbitrary: ys)
  case Nil
  then show ?case by simp
next
  case (Cons a xs)
  then show ?case by (auto split: sum.splits)
qed

lemma comprehension_all:
  "\<forall>x\<in>set xs. \<exists>y. f x = Inr y \<and> P y \<Longrightarrow>
   \<exists>ys. comprehension f xs = Inr ys \<and> length ys = length xs \<and> (\<forall>y\<in>set ys. P y)"
proof (induction xs)
  case Nil
  then show ?case by simp
next
  case (Cons x xs)
  then obtain y where y: "f x = Inr y" "P y" by auto
  from Cons obtain ys where "comprehension f xs = Inr ys" "length ys = length xs" "\<forall>y\<in>set ys. P y"
    by auto
  with y show ?case by simp
qed

lemma comprehension_index:
  "comprehension (index items) js = Inr ms \<Longrightarrow> ms = map ((!) items) js"
proof (induction js arbitrary: ms)
  case Nil
  then show ?case by simp
next
  case (Cons j js)
  then show ?case by (auto simp: index_def split: sum.splits if_splits)
qed

lemma comprehension_index_in_range:
  "\<forall>j\<in>set js. j < length items \<Longrightarrow> comprehension (index items) js = Inr (map ((!) items) js)"
  by (induction js) (simp_all add: index_def)

section \<open>The terms printed for a cluster\<close>

lemma print_terms_all:
  "\<forall>i\<in>set is. top_terms cs terms i = Inr (f i) \<Longrightarrow>
   print_terms cs terms is = (map (\<lambda>i. (i, f i)) is, None)"
  by (induction "is") simp_all

lemma top_terms_in_range:
  assumes "i < length cluster_centers"
    and "\<forall>j\<in>set (argsort (cluster_centers ! i)). j < length terms"
  shows "top_terms (centroids argsort cluster_centers) terms i =
         Inr (map ((!) terms) (take num_words (rev (argsort (cluster_centers ! i)))))"
proof -
  have "\<forall>j\<in>set (take num_words (rev (argsort (cluster_centers ! i)))). j < length terms"
    using assms(2) by (auto dest: in_set_takeD)
  then have "comprehension (index terms) (take num_words (rev (argsort (cluster_centers ! i)))) =
      Inr (map ((!) terms) (take num_words (rev (argsort (cluster_centers ! i)))))"
    by (rule comprehension_index_in_range)
  then show ?thesis
    using assms(1) by (simp add: top_terms_def centroids_def index_def)
qed

lemma top_of_argsort:
  fixes row :: "'w::linorder list"
  assumes dist: "distinct a" and seta: "set a = {0..<m}" and s: "sorted (map ((!) row) a)"
  shows "length (take n (rev a)) = min n m \<and> distinct (take n (rev a))
    \<and> (\<forall>p\<in>set (take n (rev a)). p < m)
    \<and> sorted (rev (map ((!) row) (take n (rev a))))
    \<and> (\<forall>j<m. j \<notin> set (take n (rev a)) \<longrightarrow> (\<forall>p\<in>set (take n (rev a)). row ! j \<le> row ! p))"
proof -
  define js where "js = take n (rev a)"
  have len: "length a = m"
    using distinct_card [OF dist] seta by simp
  have a1: "length js = min n m"
    by (simp add: js_def len min.commute)
  have a2: "distinct js"
    using dist by (simp add: js_def)
  have a3: "\<forall>p\<in>set js. p < m"
    using seta by (auto simp: js_def dest: in_set_takeD)
  have "rev js = drop (length a - n) a"
    by (simp add: js_def rev_take)
  then have "rev (map ((!) row) js) = drop (length a - n) (map ((!) row) a)"
    by (simp add: rev_map drop_map)
  then have a4: "sorted (rev (map ((!) row) js))"
    using s by (simp add: sorted_wrt_drop)
  have a5: "\<forall>j<m. j \<notin> set js \<longrightarrow> (\<forall>p\<in>set js. row ! j \<le> row ! p)"
  proof (intro allI impI ballI)
    fix j q
    assume j: "j < m" "j \<notin> set js" and q: "q \<in> set js"
    have split: "rev a = js @ drop n (rev a)"
      by (simp add: js_def)
    have "j \<in> set (rev a)"
      using j(1) seta by simp
    then have jr: "j \<in> set (drop n (rev a))"
      using j(2) split by (metis Un_iff set_append)
    have "a = rev (drop n (rev a)) @ rev js"
      using split by (metis rev_append rev_rev_ident)
    then have "sorted (map ((!) row) (rev (drop n (rev a))) @ map ((!) row) (rev js))"
      using s by (metis map_append)
    then show "row ! j \<le> row ! q"
      using jr q by (auto simp: sorted_append)
  qed
  from a1 a2 a3 a4 a5 show ?thesis
    unfolding js_def by blast
qed

lemma stable_argsort_sorts:
  "distinct (stable_argsort row) \<and> set (stable_argsort row) = {0..<length row}
   \<and> sorted (map ((!) row) (stable_argsort row))"
  by (simp add: stable_argsort_def)

text \<open>
  Claim C9, as the code has it. Let the centroid matrix have \<open>true_k\<close> rows, each as long
  as the vocabulary, and let \<^verbatim>\<open>argsort\<close> return for each row every index once, in
  non-decreasing order of the weight. Then the loop prints one line for every cluster index
  from 0 to \<open>true_k - 1\<close>; the terms of line \<open>i\<close> are vocabulary terms at distinct
  indices, as many as the smaller of \<open>num_words\<close> and the size of the vocabulary, in
  non-increasing order of their weight in centroid \<open>i\<close>, and no term left out weighs more
  than a printed one. The list has five terms only when the vocabulary has at least five.
\<close>

theorem C9_top_terms_by_weight:
  fixes cluster_centers :: "'w::linorder list list"
  assumes "length cluster_centers = true_k"
    and "\<forall>row\<in>set cluster_centers.
           length row = length terms \<and> distinct (argsort row)
           \<and> set (argsort row) = {0..<length row}
           \<and> sorted (map ((!) row) (argsort row))"
  shows "\<exists>out. print_cluster_terms argsort cluster_centers terms = (out, None)
    \<and> length out = true_k
    \<and> (\<forall>i<true_k. \<exists>js.
          out ! i = (i, map ((!) terms) js)
          \<and> length js = min num_words (length terms)
          \<and> distinct js
          \<and> (\<forall>p\<in>set js. p < length terms)
          \<and> sorted (rev (map ((!) (cluster_centers ! i)) js))
          \<and> (\<forall>j<length terms. j \<notin> set js \<longrightarrow>
                (\<forall>p\<in>set js. cluster_centers ! i ! j \<le> cluster_centers ! i ! p)))"
proof -
  define top where "top i = take num_words (rev (argsort (cluster_centers ! i)))" for i
  have row: "length (cluster_centers ! i) = length terms
      \<and> distinct (argsort (cluster_centers ! i))
      \<and> set (argsort (cluster_centers ! i)) = {0..<length terms}
      \<and> sorted (map ((!) (cluster_centers ! i)) (argsort (cluster_centers ! i)))"
    if "i < true_k" for i
    using that assms by (metis nth_mem)
  have inr: "\<forall>j\<in>set (argsort (cluster_centers ! i)). j < length terms" if "i < true_k" for i
  proof -
    have "set (argsort (cluster_centers ! i)) = {0..<length terms}"
      using row [OF that] by blast
    then show ?thesis by simp
  qed
  have "\<forall>i\<in>set [0..<true_k]. top_terms (centroids argsort cluster_centers) terms i
      = Inr (map ((!) terms) (top i))"
    using top_terms_in_range [of _ cluster_centers argsort terms] inr assms(1)
    by (simp add: top_def)
  then have out: "print_cluster_terms argsort cluster_centers terms
      = (map (\<lambda>i. (i, map ((!) terms) (top i))) [0..<true_k], None)"
    unfolding print_cluster_terms_def by (rule print_terms_all)
  have props: "length (top i) = min num_words (length terms)
          \<and> distinct (top i)
          \<and> (\<forall>p\<in>set (top i). p < length terms)
          \<and> sorted (rev (map ((!) (cluster_centers ! i)) (top i)))
          \<and> (\<forall>j<length terms. j \<notin> set (top i) \<longrightarrow>
                (\<forall>p\<in>set (top i). cluster_centers ! i ! j \<le> cluster_centers ! i ! p))"
    if "i < true_k" for i
    unfolding top_def
    using top_of_argsort [of "argsort (cluster_centers ! i)" "length terms" "cluster_centers ! i" num_words]
      row [OF that]
    by blast
  define out where "out = map (\<lambda>i. (i, map ((!) terms) (top i))) [0..<true_k]"
  have r: "print_cluster_terms argsort cluster_centers terms = (out, None)"
    using out by (simp add: out_def)
  have l: "length out = true_k"
    by (simp add: out_def)
  have each: "\<exists>js. out ! i = (i, map ((!) terms) js)
          \<and> length js = min num_words (length terms)
          \<and> distinct js
          \<and> (\<forall>p\<in>set js. p < length terms)
          \<and> sorted (rev (map ((!) (cluster_centers ! i)) js))
          \<and> (\<forall>j<length terms. j \<notin> set js \<longrightarrow>
                (\<forall>p\<in>set js. cluster_centers ! i ! j \<le> cluster_centers ! i ! p))"
    if "i < true_k" for i
  proof -
    have "out ! i = (i, map ((!) terms) (top i))"
      using that by (simp add: out_def)
    with props [OF that] show ?thesis by blast
  qed
  from r l each show ?thesis by blast
qed

text \<open>
  Ten equal centroids over a vocabulary of six terms: each line has the five heaviest.
\<close>

theorem C9_witness:
  "snd (print_cluster_terms stable_argsort (replicate 10 [1, 6, 3, 5, 2, 4 :: rat])
          [''castle'', ''city'', ''king'', ''poland'', ''river'', ''warta'']) = None
   \<and> length (fst (print_cluster_terms stable_argsort (replicate 10 [1, 6, 3, 5, 2, 4 :: rat])
          [''castle'', ''city'', ''king'', ''poland'', ''river'', ''warta''])) = 10
   \<and> fst (print_cluster_terms stable_argsort (replicate 10 [1, 6, 3, 5, 2, 4 :: rat])
          [''castle'', ''city'', ''king'', ''poland'', ''river'', ''warta'']) ! 3
       = (3, [''city'', ''poland'', ''warta'', ''king'', ''river''])"
proof -
  have h1: "length (replicate 10 [1, 6, 3, 5, 2, 4 :: rat]) = true_k"
    by (simp add: true_k_def)
  have h2: "\<forall>row\<in>set (replicate 10 [1, 6, 3, 5, 2, 4 :: rat]).
      length row = length [''castle'', ''city'', ''king'', ''poland'', ''river'', ''warta'']
      \<and> distinct (stable_argsort row) \<and> set (stable_argsort row) = {0..<length row}
      \<and> sorted (map ((!) row) (stable_argsort row))"
    using stable_argsort_sorts [of "[1, 6, 3, 5, 2, 4 :: rat]"] by simp
  have e: "fst (print_cluster_terms stable_argsort (replicate 10 [1, 6, 3, 5, 2, 4 :: rat])
          [''castle'', ''city'', ''king'', ''poland'', ''river'', ''warta'']) ! 3
       = (3, [''city'', ''poland'', ''warta'', ''king'', ''river''])"
    by code_simp
  from C9_top_terms_by_weight [OF h1 h2] obtain out where
    "print_cluster_terms stable_argsort (replicate 10 [1, 6, 3, 5, 2, 4 :: rat])
        [''castle'', ''city'', ''king'', ''poland'', ''river'', ''warta''] = (out, None)"
    and "length out = true_k"
    by blast
  with e show ?thesis by (simp add: true_k_def)
qed

text \<open>
  Ten centroids over a vocabulary of three terms: the line of cluster 0 has three terms,
  not \<open>num_words\<close>.
\<close>

theorem C9_counterexample:
  "fst (print_cluster_terms stable_argsort (replicate 10 [1, 3, 2 :: rat])
          [''castle'', ''city'', ''river'']) ! 0 = (0, [''city'', ''river'', ''castle''])
   \<and> length [''city'', ''river'', ''castle''] \<noteq> num_words"
  by code_simp

section \<open>The dictionary of word vectors\<close>

lemma lower_char_not_upper: "\<not> isupper (lower_char c)"
proof (cases "isupper c")
  case False
  then show ?thesis by (simp add: lower_char_def)
next
  case True
  then have "(of_char (char_of ((of_char c :: nat) + 32)) :: nat) = of_char c + 32"
    by (auto simp: isupper_def Let_def)
  with True show ?thesis
    by (auto simp: lower_char_def isupper_def Let_def)
qed

lemma lower_no_upper: "list_all (\<lambda>c. \<not> isupper c) (lower s)"
  by (simp add: lower_def list_all_iff lower_char_not_upper)

lemma lower_idem: "lower (lower s) = lower s"
  by (simp add: lower_def lower_char_def lower_char_not_upper [unfolded lower_char_def])

lemma set_setitem: "set (setitem k v d) \<subseteq> insert (k, v) (set d)"
  by (induction k v d rule: setitem.induct) (auto split: if_splits)

lemma keys_setitem:
  "map fst (setitem k v d) = (if k \<in> set (map fst d) then map fst d else map fst d @ [k])"
  by (induction k v d rule: setitem.induct) (force split: if_splits)+

lemma map_of_setitem: "map_of (setitem k v d) = (map_of d)(k \<mapsto> v)"
  by (induction k v d rule: setitem.induct) (auto simp: fun_eq_iff)

lemma words_from_entries:
  "(k, v) \<in> set (words_from nlp toks d) \<Longrightarrow>
   (k, v) \<in> set d \<or> (\<exists>w\<in>set toks. np_any (nlp w) \<and> lower w = k \<and> nlp w = v)"
proof (induction toks arbitrary: d)
  case Nil
  then show ?case by simp
next
  case (Cons t toks)
  show ?case
  proof (cases "np_any (nlp t)")
    case False
    with Cons show ?thesis by auto
  next
    case True
    with Cons.prems have "(k, v) \<in> set (words_from nlp toks (setitem (lower t) (nlp t) d))"
      by simp
    from Cons.IH [OF this] set_setitem [of "lower t" "nlp t" d] True show ?thesis
      by auto
  qed
qed

lemma words_from_distinct:
  "distinct (map fst d) \<Longrightarrow> distinct (map fst (words_from nlp toks d))"
  by (induction toks arbitrary: d) (simp_all add: keys_setitem)

lemma words_from_keeps:
  "map_of d k \<noteq> None \<Longrightarrow> map_of (words_from nlp toks d) k \<noteq> None"
  by (induction toks arbitrary: d) (simp_all add: map_of_setitem)

lemma words_from_contains:
  "w \<in> set toks \<Longrightarrow> np_any (nlp w) \<Longrightarrow> map_of (words_from nlp toks d) (lower w) \<noteq> None"
proof (induction toks arbitrary: d)
  case Nil
  then show ?case by simp
next
  case (Cons t toks)
  show ?case
  proof (cases "w = t")
    case True
    with Cons.prems show ?thesis
      by (simp add: words_from_keeps map_of_setitem)
  next
    case False
    with Cons show ?thesis by simp
  qed
qed

text \<open>
  Claim C2, as the code has it. Every key of the dictionary is lower-case, no value is a
  zero vector, and every value is the vector of a word of the text whose lower-case form
  is the key: the vector of the word as the text writes it, which need not be the vector
  of the key. The keys are distinct, and every word of the text with a non-zero vector
  has its lower-case form among them.
\<close>

theorem C2_words_keys_and_values:
  "(\<forall>(k, v)\<in>set (words nlp tokens).
      lower k = k \<and> list_all (\<lambda>c. \<not> isupper c) k \<and> np_any v
      \<and> (\<exists>w\<in>set tokens. lower w = k \<and> nlp w = v))
   \<and> distinct (keys (words nlp tokens))
   \<and> (\<forall>w\<in>set tokens. np_any (nlp w) \<longrightarrow> contains (words nlp tokens) (lower w))"
proof -
  have a: "lower k = k \<and> list_all (\<lambda>c. \<not> isupper c) k \<and> np_any v
      \<and> (\<exists>w\<in>set tokens. lower w = k \<and> nlp w = v)"
    if "(k, v) \<in> set (words nlp tokens)" for k v
  proof -
    from that words_from_entries [of k v nlp tokens "[]"]
    obtain w where w: "w \<in> set tokens" "np_any (nlp w)" "lower w = k" "nlp w = v"
      by (auto simp: words_def)
    then show ?thesis
      using lower_idem [of w] lower_no_upper [of w] by auto
  qed
  have b: "distinct (keys (words nlp tokens))"
    using words_from_distinct [of "[]" nlp tokens] by (simp add: keys_def words_def)
  have c: "contains (words nlp tokens) (lower w)" if "w \<in> set tokens" "np_any (nlp w)" for w
    using that words_from_contains [of w tokens nlp "[]"] by (simp add: contains_def words_def)
  from a b c show ?thesis by blast
qed

text \<open>
  The text \<^verbatim>\<open>The King.\<close> under a model that knows \<^verbatim>\<open>The\<close>, \<^verbatim>\<open>King\<close> and
  \<^verbatim>\<open>king\<close>.
\<close>

theorem C2_witness:
  "words (table_nlp [(''The'', [3]), (''King'', [1]), (''king'', [2])]) (split_ws (clean ''The King.''))
     = [(''the'', [3]), (''king'', [1])]
   \<and> distinct (keys [(''the'', [3::rat]), (''king'', [1])])
   \<and> contains [(''the'', [3::rat]), (''king'', [1])] (lower ''King'')"
proof -
  have t: "split_ws (clean ''The King.'') = [''The'', ''King'', ''.'']"
    by code_simp
  have w: "words (table_nlp [(''The'', [3]), (''King'', [1]), (''king'', [2])]) [''The'', ''King'', ''.'']
     = [(''the'', [3]), (''king'', [1])]"
    by code_simp
  have n: "np_any (table_nlp [(''The'', [3]), (''King'', [1]), (''king'', [2])] ''King'')"
    by code_simp
  show ?thesis
    using C2_words_keys_and_values
      [of "table_nlp [(''The'', [3]), (''King'', [1]), (''king'', [2])]" "[''The'', ''King'', ''.'']"]
      t w n
    by simp
qed

text \<open>
  In that dictionary the key \<^verbatim>\<open>king\<close> holds the vector of \<^verbatim>\<open>King\<close>, and the model's
  vector of \<^verbatim>\<open>king\<close> is another one.
\<close>

theorem C2_counterexample:
  "map_of (words (table_nlp [(''The'', [3]), (''King'', [1]), (''king'', [2])])
       (split_ws (clean ''The King.''))) ''king'' = Some [1]
   \<and> table_nlp [(''The'', [3]), (''King'', [1]), (''king'', [2])] ''king'' = [2]"
  by code_simp

section \<open>The matrix of sentence embeddings\<close>

text \<open>
  Claim C1. The notebook describes the row of a phrase as the mean of the vectors of its
  words. The comprehension runs over the characters of the phrase instead. For the
  dictionary with the keys \<^verbatim>\<open>a\<close> and \<^verbatim>\<open>cat\<close> and the phrase \<^verbatim>\<open>a cat a cat a\<close> the
  code averages five times the vector of \<^verbatim>\<open>a\<close>, one for each character \<^verbatim>\<open>a\<close>, and the
  row is that vector; the mean over the five words of the phrase is a different vector.
\<close>

theorem C1_rows_average_characters:
  "sentence_X [(''a'', [1]), (''cat'', [3])] [''a cat a cat a''] = Inr [Vector [1]]
   \<and> phrase_vectors [(''a'', [1]), (''cat'', [3])] ''a cat a cat a'' = [[1], [1], [1], [1], [1]]
   \<and> documented_word_vectors [(''a'', [1]), (''cat'', [3])] ''a cat a cat a'' = [[1], [3], [1], [3], [1]]
   \<and> mean (documented_word_vectors [(''a'', [1]), (''cat'', [3])] ''a cat a cat a'') = Inr (Vector [9 / 5])"
  by code_simp

lemma phrase_vectors_Nil:
  "list_all (\<lambda>c. \<not> contains ws [c]) phrase \<Longrightarrow> phrase_vectors ws phrase = []"
  by (simp add: phrase_vectors_def list_all_iff filter_empty_conv)

text \<open>
  Claim C3. Nothing guards the mean against an empty list: for a phrase that passes the
  length filter and none of whose elements is a key of the dictionary, the list of vectors
  handed to the mean is empty, the mean is the \<^verbatim>\<open>nan\<close> of an empty slice, and that value is
  a row of the list handed on to \<^verbatim>\<open>np.vstack\<close>.
\<close>

theorem C3_mean_of_empty_reachable:
  assumes "phrase \<in> set ps" and "retained phrase"
    and "list_all (\<lambda>c. \<not> contains ws [c]) phrase"
  shows "phrase_vectors ws phrase = [] \<and> mean (phrase_vectors ws phrase) = Inr NaN
    \<and> (sentence_rows ws ps = Inr rows \<longrightarrow> NaN \<in> set rows)"
proof -
  have e: "phrase_vectors ws phrase = []"
    using assms(3) by (rule phrase_vectors_Nil)
  then have m: "mean (phrase_vectors ws phrase) = Inr NaN"
    by (simp add: mean_def)
  have "NaN \<in> set rows" if "sentence_rows ws ps = Inr rows"
  proof -
    have c: "comprehension (\<lambda>phrase. mean (phrase_vectors ws phrase)) (filter retained ps) = Inr rows"
      using that by (simp add: sentence_rows_def)
    have "phrase \<in> set (filter retained ps)"
      using assms(1,2) by simp
    then show ?thesis
      using comprehension_mem [OF c _ m] by blast
  qed
  with e m show ?thesis by blast
qed

text \<open>
  A dictionary with the one key \<^verbatim>\<open>a\<close> and a phrase of five words without that letter.
\<close>

theorem C3_witness:
  "phrase_vectors [(''a'', [1])] ''b c d e f'' = []
   \<and> sentence_rows [(''a'', [1])] [''a.'', ''b c d e f''] = Inr [NaN]"
proof -
  have r: "sentence_rows [(''a'', [1])] [''a.'', ''b c d e f''] = Inr [NaN]"
    by code_simp
  have p: "''b c d e f'' \<in> set [''a.'', ''b c d e f'']" by simp
  have k: "retained ''b c d e f''" by code_simp
  have n: "list_all (\<lambda>c. \<not> contains [(''a'', [1::rat])] [c]) ''b c d e f''" by code_simp
  show ?thesis
    using C3_mean_of_empty_reachable [OF p k n] r by simp
qed

lemma vstack_Inr: "vstack rs = Inr X \<Longrightarrow> X = rs \<and> rs \<noteq> []"
  by (auto simp: vstack_def split: if_splits)

lemma mean_uniform:
  "vs \<noteq> [] \<Longrightarrow> \<forall>v\<in>set vs. length v = n \<Longrightarrow> \<exists>u. mean vs = Inr (Vector u) \<and> length u = n"
  by (cases vs) (auto simp: mean_def list_all_iff)

lemma phrase_vectors_dims:
  assumes "\<forall>(k, v)\<in>set ws. length v = n"
  shows "\<forall>v\<in>set (phrase_vectors ws p). length v = n"
proof
  fix v
  assume "v \<in> set (phrase_vectors ws p)"
  then obtain c where "map_of ws [c] \<noteq> None" and "v = the (map_of ws [c])"
    by (auto simp: phrase_vectors_def contains_def)
  then have "([c], v) \<in> set ws"
    by (auto dest: map_of_SomeD)
  with assms show "length v = n" by auto
qed

lemma sentence_X_succeeds:
  assumes ne: "filter retained ps \<noteq> []"
    and dims: "\<forall>(k, v)\<in>set ws. length v = n"
    and keys: "\<forall>p\<in>set ps. retained p \<longrightarrow> phrase_vectors ws p \<noteq> []"
  shows "\<exists>X. sentence_X ws ps = Inr X"
proof -
  have "\<forall>p\<in>set (filter retained ps).
      \<exists>r. mean (phrase_vectors ws p) = Inr r \<and> width r = n"
  proof
    fix p
    assume "p \<in> set (filter retained ps)"
    then have "phrase_vectors ws p \<noteq> []" using keys by simp
    from mean_uniform [OF this phrase_vectors_dims [OF dims]]
    show "\<exists>r. mean (phrase_vectors ws p) = Inr r \<and> width r = n" by auto
  qed
  from comprehension_all [OF this] obtain rows where
    r: "sentence_rows ws ps = Inr rows" and l: "length rows = length (filter retained ps)"
    and w: "\<forall>r\<in>set rows. width r = n"
    by (auto simp: sentence_rows_def)
  from l ne have "rows \<noteq> []" by auto
  then have "hd rows \<in> set rows" by simp
  with w have "vstack rows = Inr rows"
    using \<open>rows \<noteq> []\<close> by (simp add: vstack_def list_all_iff)
  with r show ?thesis by (simp add: sentence_X_def)
qed

text \<open>
  The words of a string are its maximal runs of characters that are not whitespace, so
  there are as many words as there are places where such a character follows a
  whitespace character or starts the string.
\<close>

lemma length_split_words:
  "(isspace x \<longleftrightarrow> cur = []) \<Longrightarrow>
   length (split_words cur s) =
     (if cur = [] then 0 else 1)
     + length (filter (\<lambda>(a, c). isspace a \<and> \<not> isspace c) (zip (x # s) s))"
proof (induction s arbitrary: cur x)
  case Nil
  then show ?case by simp
next
  case (Cons c cs)
  show ?case
  proof (cases "isspace c")
    case True
    have "length (split_words [] cs) =
        length (filter (\<lambda>(a, c). isspace a \<and> \<not> isspace c) (zip (c # cs) cs))"
      using Cons.IH [of c "[]"] True by simp
    with True show ?thesis by simp
  next
    case False
    have "length (split_words (cur @ [c]) cs) =
        1 + length (filter (\<lambda>(a, c). isspace a \<and> \<not> isspace c) (zip (c # cs) cs))"
      using Cons.IH [of c "cur @ [c]"] False by simp
    with False Cons.prems show ?thesis by simp
  qed
qed

lemma isspace_space: "isspace (CHR '' '')"
  by (simp add: isspace_def)

lemma length_split_ws:
  "length (split_ws s) =
     length (filter (\<lambda>(a, c). isspace a \<and> \<not> isspace c) (zip (CHR '' '' # s) s))"
  using length_split_words [of "CHR '' ''" "[]" s] isspace_space by (simp add: split_ws_def)

lemma isspace_set:
  "isspace c \<longleftrightarrow> (of_char c :: nat) \<in> {9, 10, 11, 12, 13, 28, 29, 30, 31, 32, 133, 160}"
  unfolding isspace_def Let_def by (simp; arith)

text \<open>
  Claim C10. A phrase is retained when it has at least five whitespace-separated words,
  that is, at least five places where a character that is not whitespace starts the
  phrase or follows a whitespace character. A phrase with fewer words contributes no row:
  the matrix is the one built from the retained phrases alone, and when the cell yields
  a matrix it has exactly one row for every retained phrase, in the order of the phrases,
  row \<open>i\<close> being the mean computed for the \<open>i\<close>-th retained phrase. The cell does yield a
  matrix when some phrase is retained, the vectors of the dictionary have one dimension,
  and every retained phrase has a character that is a key.
\<close>

theorem C10_one_row_per_retained_phrase:
  "(retained p \<longleftrightarrow>
      5 \<le> length (filter (\<lambda>(a, c). isspace a \<and> \<not> isspace c) (zip (CHR '' '' # p) p)))
   \<and> (isspace c \<longleftrightarrow> (of_char c :: nat) \<in> {9, 10, 11, 12, 13, 28, 29, 30, 31, 32, 133, 160})
   \<and> sentence_X ws ps = sentence_X ws (filter retained ps)
   \<and> (sentence_X ws ps = Inr X \<longrightarrow>
      length X = length (filter retained ps) \<and>
      (\<forall>i<length X. mean (phrase_vectors ws (filter retained ps ! i)) = Inr (X ! i)))
   \<and> (filter retained ps \<noteq> [] \<and> (\<forall>(k, v)\<in>set ws. length v = n)
        \<and> (\<forall>p\<in>set ps. retained p \<longrightarrow> phrase_vectors ws p \<noteq> []) \<longrightarrow>
      (\<exists>Y. sentence_X ws ps = Inr Y \<and> length Y = length (filter retained ps)))"
proof -
  have w: "retained p \<longleftrightarrow>
      5 \<le> length (filter (\<lambda>(a, c). isspace a \<and> \<not> isspace c) (zip (CHR '' '' # p) p))"
    by (simp add: retained_def length_split_ws)
  have "sentence_rows ws ps = sentence_rows ws (filter retained ps)"
    by (simp add: sentence_rows_def)
  then have a: "sentence_X ws ps = sentence_X ws (filter retained ps)"
    by (simp add: sentence_X_def)
  have b: "length Z = length (filter retained ps) \<and>
      (\<forall>i<length Z. mean (phrase_vectors ws (filter retained ps ! i)) = Inr (Z ! i))"
    if "sentence_X ws ps = Inr Z" for Z
  proof -
    from that obtain rows where r: "sentence_rows ws ps = Inr rows" and v: "vstack rows = Inr Z"
      by (auto simp: sentence_X_def split: sum.splits)
    from v have "Z = rows" using vstack_Inr by blast
    with comprehension_Inr [OF r [unfolded sentence_rows_def]] show ?thesis by simp
  qed
  have c: "\<exists>Y. sentence_X ws ps = Inr Y \<and> length Y = length (filter retained ps)"
    if "filter retained ps \<noteq> [] \<and> (\<forall>(k, v)\<in>set ws. length v = n)
        \<and> (\<forall>p\<in>set ps. retained p \<longrightarrow> phrase_vectors ws p \<noteq> [])"
  proof -
    from that sentence_X_succeeds [of ps ws n] obtain Y where "sentence_X ws ps = Inr Y"
      by blast
    with b [of Y] show ?thesis by blast
  qed
  from w isspace_set [of c] a b [of X] c show ?thesis by blast
qed

text \<open>
  Four phrases: five words, four words, two long words, and six words separated by a
  tab and by two spaces. The first and the last are retained, and the matrix has two rows.
\<close>

theorem C10_witness:
  "retained ''a b c d e'' \<and> \<not> retained ''a b c d'' \<and> \<not> retained ''abcdefgh ij''
   \<and> retained (''a'' @ [CHR 0x09] @ ''a  b d e f'')
   \<and> sentence_X [(''a'', [1]), (''b'', [3]), (''c'', [5])]
        [''a b c d e'', ''a b c d'', ''abcdefgh ij'', ''a'' @ [CHR 0x09] @ ''a  b d e f'']
      = Inr [Vector [3], Vector [5 / 3]]
   \<and> length (filter retained
        [''a b c d e'', ''a b c d'', ''abcdefgh ij'', ''a'' @ [CHR 0x09] @ ''a  b d e f'']) = 2"
proof -
  have n1: "length (filter (\<lambda>(a, c). isspace a \<and> \<not> isspace c)
      (zip (CHR '' '' # ''a b c d e'') ''a b c d e'')) = 5"
    by code_simp
  have n2: "length (filter (\<lambda>(a, c). isspace a \<and> \<not> isspace c)
      (zip (CHR '' '' # ''a b c d'') ''a b c d'')) = 4"
    by code_simp
  have n3: "length (filter (\<lambda>(a, c). isspace a \<and> \<not> isspace c)
      (zip (CHR '' '' # ''abcdefgh ij'') ''abcdefgh ij'')) = 2"
    by code_simp
  have n4: "length (filter (\<lambda>(a, c). isspace a \<and> \<not> isspace c)
      (zip (CHR '' '' # (''a'' @ [CHR 0x09] @ ''a  b d e f'')) (''a'' @ [CHR 0x09] @ ''a  b d e f''))) = 6"
    by code_simp
  have r1: "retained ''a b c d e''"
    using C10_one_row_per_retained_phrase [where p = "''a b c d e''", THEN conjunct1] n1 by simp
  have r2: "\<not> retained ''a b c d''"
    using C10_one_row_per_retained_phrase [where p = "''a b c d''", THEN conjunct1] n2 by simp
  have r3: "\<not> retained ''abcdefgh ij''"
    using C10_one_row_per_retained_phrase [where p = "''abcdefgh ij''", THEN conjunct1] n3 by simp
  have r4: "retained (''a'' @ [CHR 0x09] @ ''a  b d e f'')"
    using C10_one_row_per_retained_phrase [where p = "''a'' @ [CHR 0x09] @ ''a  b d e f''", THEN conjunct1] n4 by simp
  have x: "sentence_X [(''a'', [1]), (''b'', [3]), (''c'', [5])]
        [''a b c d e'', ''a b c d'', ''abcdefgh ij'', ''a'' @ [CHR 0x09] @ ''a  b d e f'']
      = Inr [Vector [3], Vector [5 / 3]]"
    by code_simp
  have l: "length (filter retained
        [''a b c d e'', ''a b c d'', ''abcdefgh ij'', ''a'' @ [CHR 0x09] @ ''a  b d e f'']) = 2"
    using C10_one_row_per_retained_phrase
      [where ws = "[(''a'', [1]), (''b'', [3]), (''c'', [5])]"
         and ps = "[''a b c d e'', ''a b c d'', ''abcdefgh ij'', ''a'' @ [CHR 0x09] @ ''a  b d e f'']"
         and X = "[Vector [3], Vector [5 / 3]]",
       THEN conjunct2, THEN conjunct2, THEN conjunct2, THEN conjunct1] x
    by simp
  from r1 r2 r3 r4 x l show ?thesis by blast
qed

section \<open>The printed membership of the clusters\<close>

lemma fst_print_clusters_Cons:
  "fst (print_clusters items labels (a # ids)) =
     (if 0 \<le> a then
        (case comprehension (index items) (where_eq labels a) of
           Inl e \<Rightarrow> [Cluster a]
         | Inr ms \<Rightarrow> Cluster a # Members ms # fst (print_clusters items labels ids))
      else fst (print_clusters items labels ids))"
  by (simp split: sum.splits prod.splits)

lemma print_clusters_Cluster:
  "Cluster c \<in> set (fst (print_clusters items labels ids)) \<Longrightarrow> 0 \<le> c \<and> c \<in> set ids"
proof (induction ids)
  case Nil
  then show ?case by simp
next
  case (Cons a ids)
  show ?case
  proof (cases "Cluster c \<in> set (fst (print_clusters items labels ids))")
    case True
    then show ?thesis using Cons.IH by simp
  next
    case False
    with Cons.prems have "c = a \<and> 0 \<le> a"
      unfolding fst_print_clusters_Cons by (simp split: if_splits sum.splits)
    then show ?thesis by simp
  qed
qed

lemma print_clusters_Members:
  "Members ms \<in> set (fst (print_clusters items labels ids)) \<Longrightarrow>
   \<exists>c\<in>set ids. 0 \<le> c \<and> ms = map ((!) items) (where_eq labels c)"
proof (induction ids)
  case Nil
  then show ?case by simp
next
  case (Cons a ids)
  show ?case
  proof (cases "Members ms \<in> set (fst (print_clusters items labels ids))")
    case True
    then show ?thesis using Cons.IH by auto
  next
    case False
    with Cons.prems have "0 \<le> a \<and> comprehension (index items) (where_eq labels a) = Inr ms"
      unfolding fst_print_clusters_Cons by (simp split: if_splits sum.splits)
    then have "0 \<le> a \<and> ms = map ((!) items) (where_eq labels a)"
      using comprehension_index by blast
    then show ?thesis by auto
  qed
qed

lemma where_eq_iff: "i \<in> set (where_eq labels c) \<longleftrightarrow> i < length labels \<and> labels ! i = c"
  by (auto simp: where_eq_def)

lemma print_clusters_in_range:
  "length labels \<le> length items \<Longrightarrow>
   print_clusters items labels ids =
     (concat (map (\<lambda>c. [Cluster c, Members (map ((!) items) (where_eq labels c))])
        (filter (\<lambda>c. 0 \<le> c) ids)), None)"
proof (induction ids)
  case Nil
  then show ?case by simp
next
  case (Cons a ids)
  have "\<forall>j\<in>set (where_eq labels a). j < length items"
    using Cons.prems by (auto simp: where_eq_iff)
  then have "comprehension (index items) (where_eq labels a) = Inr (map ((!) items) (where_eq labels a))"
    by (rule comprehension_index_in_range)
  with Cons show ?case by simp
qed

lemma set_unique: "set (unique labels) = set labels"
  by (simp add: unique_def)

text \<open>
  Both membership loops print only cluster ids that are not negative, and every printed
  list of members holds the items at exactly the positions labelled with one such id. When
  there are at least as many items as labels, the output is one header and one list of
  members for every non-negative label, in increasing order.
\<close>

lemma printed_cluster_ids_not_negative:
  "(\<forall>l\<in>set (fst (print_phrase_clusters ps labels)).
      case l of
        Cluster c \<Rightarrow> 0 \<le> c \<and> c \<in> set labels
      | Members ms \<Rightarrow> (\<exists>c\<in>set labels. 0 \<le> c \<and>
          ms = map ((!) ps) (filter (\<lambda>i. labels ! i = c) [0..<length labels])))
   \<and> (\<forall>l\<in>set (fst (print_word_clusters ws labels)).
      case l of
        Cluster c \<Rightarrow> 0 \<le> c \<and> c \<in> set labels
      | Members ms \<Rightarrow> (\<exists>c\<in>set labels. 0 \<le> c \<and>
          ms = map ((!) (keys ws)) (filter (\<lambda>i. labels ! i = c) [0..<length labels])))
   \<and> (length labels \<le> length ps \<longrightarrow>
        print_phrase_clusters ps labels =
          (concat (map (\<lambda>c. [Cluster c, Members (map ((!) ps) (filter (\<lambda>i. labels ! i = c) [0..<length labels]))])
             (filter (\<lambda>c. 0 \<le> c) (unique labels))), None))
   \<and> (length labels \<le> length (keys ws) \<longrightarrow>
        print_word_clusters ws labels =
          (concat (map (\<lambda>c. [Cluster c, Members (map ((!) (keys ws)) (filter (\<lambda>i. labels ! i = c) [0..<length labels]))])
             (filter (\<lambda>c. 0 \<le> c) (unique labels))), None))"
proof -
  have gen: "case l of
        Cluster c \<Rightarrow> 0 \<le> c \<and> c \<in> set labels
      | Members ms \<Rightarrow> (\<exists>c\<in>set labels. 0 \<le> c \<and>
          ms = map ((!) items) (filter (\<lambda>i. labels ! i = c) [0..<length labels]))"
    if "l \<in> set (fst (print_clusters items labels (unique labels)))" for l items
  proof (cases l)
    case (Cluster c)
    with that print_clusters_Cluster [of c items labels "unique labels"] show ?thesis
      by (simp add: set_unique)
  next
    case (Members ms)
    with that print_clusters_Members [of ms items labels "unique labels"] show ?thesis
      by (simp add: set_unique where_eq_def)
  qed
  have full: "length labels \<le> length items \<longrightarrow>
        print_clusters items labels (unique labels) =
          (concat (map (\<lambda>c. [Cluster c, Members (map ((!) items) (filter (\<lambda>i. labels ! i = c) [0..<length labels]))])
             (filter (\<lambda>c. 0 \<le> c) (unique labels))), None)" for items
    using print_clusters_in_range [of labels items "unique labels"] by (simp add: where_eq_def)
  show ?thesis
    unfolding print_phrase_clusters_def print_word_clusters_def
    using gen full by blast
qed


section \<open>Faults end the cell that raises them\<close>

lemma replay_append: "replay (xs @ ys) m = replay ys (replay xs m)"
proof (induction xs arbitrary: m)
  case Nil
  show ?case by simp
next
  case (Cons ev xs)
  then show ?case by (cases ev) (simp_all add: fun_upd_def)
qed

lemma fault_free_append: "fault_free (xs @ ys) \<longleftrightarrow> fault_free xs \<and> fault_free ys"
  by (simp add: fault_free_def)

lemma propagatesI:
  assumes "\<And>s r s'. p s = (r, s') \<Longrightarrow>
    \<exists>new. trace s' = trace s @ new \<and> env s' = replay new (env s)
      \<and> (case r of Inr x \<Rightarrow> fault_free new
          | Inl e \<Rightarrow> (\<exists>pre. new = pre @ [Faulted e] \<and> fault_free pre))"
  shows "propagates p"
  unfolding propagates_def using assms by (auto split: prod.splits)

lemma propagatesD:
  assumes "propagates p" and "p s = (r, s')"
  shows "\<exists>new. trace s' = trace s @ new \<and> env s' = replay new (env s)
      \<and> (case r of Inr x \<Rightarrow> fault_free new
          | Inl e \<Rightarrow> (\<exists>pre. new = pre @ [Faulted e] \<and> fault_free pre))"
proof -
  from assms(1) have "case p s of
        (r, s') \<Rightarrow>
          (\<exists>new. trace s' = trace s @ new \<and> env s' = replay new (env s)
             \<and> (case r of
                   Inr x \<Rightarrow> fault_free new
                 | Inl e \<Rightarrow> (\<exists>pre. new = pre @ [Faulted e] \<and> fault_free pre)))"
    unfolding propagates_def by (rule spec)
  with assms(2) show ?thesis by simp
qed

lemma propagates_result: "propagates (result x)"
  by (rule propagatesI) (auto simp: result_def fault_free_def intro: exI [of _ "[]"])

lemma propagates_raise: "propagates (raise e)"
  by (rule propagatesI) (auto simp: raise_def fault_free_def intro!: exI [of _ "[]"])

lemma traced_step:
  assumes step: "\<And>s. p s =
     (case out s of
        Inl e \<Rightarrow> (Inl e, s\<lparr>trace := trace s @ [ev, Faulted e]\<rparr>)
      | Inr v \<Rightarrow> (Inr v, s\<lparr>trace := trace s @ [ev]\<rparr>))"
    and nf: "\<not> is_fault ev" and na: "\<And>m. replay [ev] m = m"
  shows "propagates p"
proof (rule propagatesI)
  fix s r s'
  assume run: "p s = (r, s')"
  have ff: "fault_free [ev]"
    using nf by (simp add: fault_free_def)
  show "\<exists>new. trace s' = trace s @ new \<and> env s' = replay new (env s)
      \<and> (case r of Inr x \<Rightarrow> fault_free new
          | Inl e \<Rightarrow> (\<exists>pre. new = pre @ [Faulted e] \<and> fault_free pre))"
  proof (cases "out s")
    case (Inl e)
    have "p s = (Inl e, s\<lparr>trace := trace s @ [ev, Faulted e]\<rparr>)"
      unfolding step [of s] Inl by simp
    with run have r: "r = Inl e" and s': "s' = s\<lparr>trace := trace s @ [ev, Faulted e]\<rparr>"
      by simp_all
    have e1: "replay [ev, Faulted e] (env s) = env s"
      using na [of "env s"] replay_append [of "[ev]" "[Faulted e]" "env s"] by simp
    have e2: "\<exists>pre. [ev, Faulted e] = pre @ [Faulted e] \<and> fault_free pre"
      using ff by (intro exI [of _ "[ev]"]) simp
    have "trace s' = trace s @ [ev, Faulted e] \<and> env s' = replay [ev, Faulted e] (env s)
      \<and> (case r of Inr x \<Rightarrow> fault_free [ev, Faulted e]
          | Inl e' \<Rightarrow> (\<exists>pre. [ev, Faulted e] = pre @ [Faulted e'] \<and> fault_free pre))"
      unfolding r s' using e1 e2 by simp
    then show ?thesis by (rule exI)
  next
    case (Inr v)
    have "p s = (Inr v, s\<lparr>trace := trace s @ [ev]\<rparr>)"
      unfolding step [of s] Inr by simp
    with run have r: "r = Inr v" and s': "s' = s\<lparr>trace := trace s @ [ev]\<rparr>"
      by simp_all
    have "trace s' = trace s @ [ev] \<and> env s' = replay [ev] (env s)
      \<and> (case r of Inr x \<Rightarrow> fault_free [ev]
          | Inl e' \<Rightarrow> (\<exists>pre. [ev] = pre @ [Faulted e'] \<and> fault_free pre))"
      unfolding r s' using na [of "env s"] ff by simp
    then show ?thesis by (rule exI)
  qed
qed

lemma propagates_perform: "propagates (perform I name vs)"
  by (rule traced_step [where ev = "Called name vs" and out = "\<lambda>s. call I name vs (length (trace s))"])
    (simp_all add: perform_def)

lemma propagates_elements: "propagates (elements I v)"
  by (rule traced_step [where ev = "Iterated v" and out = "\<lambda>s. iterate I v (length (trace s))"])
    (simp_all add: elements_def)

lemma propagates_test: "propagates (test I v)"
  by (rule traced_step [where ev = "Tested v" and out = "\<lambda>s. truth I v (length (trace s))"])
    (simp_all add: test_def)

lemma propagates_load: "propagates (load x)"
  by (rule propagatesI)
    (auto simp: load_def raise_def fault_free_def split: option.splits intro!: exI [of _ "[]"])

lemma propagates_store: "propagates (store x v)"
  by (rule propagatesI) (auto simp: store_def fault_free_def)

lemma propagates_andthen:
  assumes p: "propagates p" and f: "\<And>x. propagates (f x)"
  shows "propagates (andthen p f)"
proof (rule propagatesI)
  fix s r s'
  assume run: "andthen p f s = (r, s')"
  obtain r1 s1 where p1: "p s = (r1, s1)" by (cases "p s")
  from propagatesD [OF p p1] obtain new1 where
    n1: "trace s1 = trace s @ new1" "env s1 = replay new1 (env s)"
      "case r1 of Inr x \<Rightarrow> fault_free new1
        | Inl e \<Rightarrow> (\<exists>pre. new1 = pre @ [Faulted e] \<and> fault_free pre)"
    by blast
  show "\<exists>new. trace s' = trace s @ new \<and> env s' = replay new (env s)
      \<and> (case r of Inr x \<Rightarrow> fault_free new
          | Inl e \<Rightarrow> (\<exists>pre. new = pre @ [Faulted e] \<and> fault_free pre))"
  proof (cases r1)
    case (Inl e)
    with run p1 have "r = Inl e" "s' = s1" by (simp_all add: andthen_def)
    with n1 Inl show ?thesis by auto
  next
    case (Inr x)
    with run p1 have f1: "f x s1 = (r, s')" by (simp add: andthen_def)
    from propagatesD [OF f f1] obtain new2 where
      n2: "trace s' = trace s1 @ new2" "env s' = replay new2 (env s1)"
        "case r of Inr x \<Rightarrow> fault_free new2
          | Inl e \<Rightarrow> (\<exists>pre. new2 = pre @ [Faulted e] \<and> fault_free pre)"
      by blast
    from n1 Inr have ff: "fault_free new1" by simp
    have "trace s' = trace s @ (new1 @ new2)" using n1 n2 by simp
    moreover have "env s' = replay (new1 @ new2) (env s)"
      using n1 n2 by (simp add: replay_append)
    moreover have "case r of Inr x \<Rightarrow> fault_free (new1 @ new2)
          | Inl e \<Rightarrow> (\<exists>pre. new1 @ new2 = pre @ [Faulted e] \<and> fault_free pre)"
    proof (cases r)
      case (Inl e)
      with n2 obtain pre where "new2 = pre @ [Faulted e]" "fault_free pre" by auto
      then have "new1 @ new2 = (new1 @ pre) @ [Faulted e] \<and> fault_free (new1 @ pre)"
        using ff by (simp add: fault_free_append)
      with Inl show ?thesis by auto
    next
      case (Inr y)
      with n2 ff show ?thesis by (simp add: fault_free_append)
    qed
    ultimately show ?thesis by blast
  qed
qed

named_theorems propagates_intros

lemma propagates_lit [propagates_intros]: "propagates (lit I c)"
  by (simp add: lit_def propagates_result)

lemma propagates_operands_Nil [propagates_intros]: "propagates (operands [])"
  by (simp add: propagates_result)

lemma propagates_operands_Cons [propagates_intros]:
  "propagates p \<Longrightarrow> propagates (operands ps) \<Longrightarrow> propagates (operands (p # ps))"
  by (simp add: propagates_andthen propagates_result)

lemma propagates_op [propagates_intros]:
  "propagates (operands ps) \<Longrightarrow> propagates (op I name ps)"
  by (simp add: op_def propagates_andthen propagates_perform)

lemma propagates_attr [propagates_intros]: "propagates p \<Longrightarrow> propagates (attr I p name)"
  unfolding attr_def
  by (intro propagates_op propagates_operands_Cons propagates_operands_Nil)

lemma propagates_assign [propagates_intros]: "propagates p \<Longrightarrow> propagates (assign x p)"
  by (simp add: assign_def propagates_andthen propagates_store)

lemma propagates_expr [propagates_intros]: "propagates p \<Longrightarrow> propagates (expr p)"
  by (simp add: expr_def propagates_andthen propagates_result)

lemma propagates_display [propagates_intros]: "propagates p \<Longrightarrow> propagates (display I p)"
  by (simp add: display_def propagates_andthen propagates_result propagates_perform)

lemma propagates_import_as [propagates_intros]: "propagates (import_as I what name)"
  by (simp add: import_as_def propagates_assign propagates_perform)

lemma propagates_block_Nil [propagates_intros]: "propagates (block [])"
  by (simp add: propagates_result)

lemma propagates_block_Cons [propagates_intros]:
  "propagates p \<Longrightarrow> propagates (block ps) \<Longrightarrow> propagates (block (p # ps))"
  by (simp add: propagates_andthen)

lemma propagates_for_each:
  "(\<And>x. propagates (body x)) \<Longrightarrow> propagates (for_each xs body)"
  by (induction xs) (simp_all add: propagates_andthen propagates_result)

lemma propagates_for_loop [propagates_intros]:
  "propagates iterable \<Longrightarrow> propagates body \<Longrightarrow> propagates (for_loop I x iterable body)"
  unfolding for_loop_def
  by (intro propagates_andthen propagates_elements propagates_for_each propagates_store)

lemma propagates_if: "propagates p \<Longrightarrow> propagates q \<Longrightarrow> propagates (if b then p else q)"
  by simp

lemma propagates_if_stmt [propagates_intros]:
  "propagates cond \<Longrightarrow> propagates body \<Longrightarrow> propagates (if_stmt I cond body)"
  unfolding if_stmt_def
  by (intro propagates_andthen propagates_test propagates_if propagates_result)

lemma propagates_gather:
  "(\<And>x. propagates (f x)) \<Longrightarrow> propagates (gather xs f)"
  by (induction xs) (simp_all add: propagates_andthen propagates_result)

lemma propagates_listcomp [propagates_intros]:
  "propagates iterable \<Longrightarrow> (\<And>x. propagates (elt x)) \<Longrightarrow> propagates (listcomp I iterable elt)"
  unfolding listcomp_def
  by (intro propagates_andthen propagates_elements propagates_gather propagates_perform
      propagates_result)

lemma propagates_listcomp_if [propagates_intros]:
  "propagates iterable \<Longrightarrow> (\<And>x. propagates (cond x)) \<Longrightarrow> (\<And>x. propagates (elt x)) \<Longrightarrow>
   propagates (listcomp_if I iterable cond elt)"
  unfolding listcomp_if_def
  by (intro propagates_andthen propagates_elements propagates_gather propagates_perform
      propagates_test propagates_if propagates_result)

lemma propagates_dictcomp_if [propagates_intros]:
  "propagates iterable \<Longrightarrow> (\<And>x. propagates (cond x)) \<Longrightarrow> (\<And>x. propagates (key x)) \<Longrightarrow>
   (\<And>x. propagates (val x)) \<Longrightarrow> propagates (dictcomp_if I iterable cond key val)"
  unfolding dictcomp_if_def
  by (intro propagates_andthen propagates_elements propagates_gather propagates_perform
      propagates_test propagates_if propagates_result)

lemma propagates_unpack2 [propagates_intros]:
  "propagates p \<Longrightarrow> propagates (unpack2 I x y p)"
proof -
  have "propagates (case xs of [a, b] \<Rightarrow> andthen (store x a) (\<lambda>u. store y b)
                     | _ \<Rightarrow> (raise ValueError :: ('a, unit) prog))" for xs :: "'a list"
    by (auto split: list.splits intro: propagates_raise propagates_andthen propagates_store)
  then show "propagates p \<Longrightarrow> propagates (unpack2 I x y p)"
    unfolding unpack2_def
    by (intro propagates_andthen propagates_elements)
qed

lemmas propagates_leaf = propagates_load propagates_result

lemma cell_3_propagates: "propagates (cell_3 I)"
  unfolding cell_3_def by (intro propagates_intros propagates_leaf)

lemma cell_4_propagates: "propagates (cell_4 I)"
  unfolding cell_4_def by (intro propagates_intros propagates_leaf)

lemma cell_5_propagates: "propagates (cell_5 I)"
  unfolding cell_5_def by (intro propagates_intros propagates_leaf)

lemma cell_7_propagates: "propagates (cell_7 I)"
  unfolding cell_7_def by (intro propagates_intros propagates_leaf)

lemma cell_10_propagates: "propagates (cell_10 I)"
  unfolding cell_10_def by (intro propagates_intros propagates_leaf)

lemma cell_11_propagates: "propagates (cell_11 I)"
  unfolding cell_11_def by (intro propagates_intros propagates_leaf)

lemma cell_12_propagates: "propagates (cell_12 I)"
  unfolding cell_12_def by (intro propagates_intros propagates_leaf)

lemma cell_13_propagates: "propagates (cell_13 I)"
  unfolding cell_13_def by (intro propagates_intros propagates_leaf)

lemma cell_15_propagates: "propagates (cell_15 I)"
  unfolding cell_15_def by (intro propagates_intros propagates_leaf)

lemma cell_19_propagates: "propagates (cell_19 I)"
  unfolding cell_19_def by (intro propagates_intros propagates_leaf)

lemma cell_21_propagates: "propagates (cell_21 I)"
  unfolding cell_21_def by (intro propagates_intros propagates_leaf)

lemma cell_22_propagates: "propagates (cell_22 I)"
  unfolding cell_22_def by (intro propagates_intros propagates_leaf)

lemma cell_24_propagates: "propagates (cell_24 I)"
  unfolding cell_24_def by (intro propagates_intros propagates_leaf)

lemma cell_26_propagates: "propagates (cell_26 I)"
  unfolding cell_26_def by (intro propagates_intros propagates_leaf)

lemma cell_27_propagates: "propagates (cell_27 I)"
  unfolding cell_27_def by (intro propagates_intros propagates_leaf)

lemma cell_29_propagates: "propagates (cell_29 I)"
  unfolding cell_29_def by (intro propagates_intros propagates_leaf)

lemma cell_31_propagates: "propagates (cell_31 I)"
  unfolding cell_31_def by (intro propagates_intros propagates_leaf)

lemma cell_32_propagates: "propagates (cell_32 I)"
  unfolding cell_32_def by (intro propagates_intros propagates_leaf)

lemma cell_34_propagates: "propagates (cell_34 I)"
  unfolding cell_34_def by (intro propagates_intros propagates_leaf)

lemma cell_35_propagates: "propagates (cell_35 I)"
  unfolding cell_35_def by (intro propagates_intros propagates_leaf)

lemma cell_37_propagates: "propagates (cell_37 I)"
  unfolding cell_37_def by (intro propagates_intros propagates_leaf)

lemma cell_39_propagates: "propagates (cell_39 I)"
  unfolding cell_39_def by (intro propagates_intros propagates_leaf)

lemma cell_40_propagates: "propagates (cell_40 I)"
  unfolding cell_40_def by (intro propagates_intros propagates_leaf)

lemma cell_42_propagates: "propagates (cell_42 I)"
  unfolding cell_42_def by (intro propagates_intros propagates_leaf)

lemma cell_43_propagates: "propagates (cell_43 I)"
  unfolding cell_43_def by (intro propagates_intros propagates_leaf)

lemma cell_44_propagates: "propagates (cell_44 I)"
  unfolding cell_44_def by (intro propagates_intros propagates_leaf)

text \<open>
  The cells in which the failures named by the specification arise, run up to the fault:
  the missing data file in cell 3, the failed request in cell 24, the empty vocabulary
  in cell 26, and more clusters than samples in cell 29.
\<close>

lemmas run_defs = block.simps operands.simps import_as_def assign_def expr_def display_def
  op_def attr_def andthen_def perform_def store_def load_def result_def lit_def raise_def

lemma cell_3_missing_file:
  assumes "\<And>n. call I ''import numpy'' [] n = Inr np"
    and "\<And>n. call I ''import pandas'' [] n = Inr pd"
    and "\<And>n. call I ''_.read_table'' [pd] n = Inr f"
    and "\<And>n. call I ''_(zoo.tab)'' [f] n = Inl e"
  shows "cell_3 I s =
    (Inl e, s\<lparr>trace := trace s @
        [Called ''import numpy'' [], Assigned ''np'' np,
         Called ''import pandas'' [], Assigned ''pd'' pd,
         Called ''_.read_table'' [pd], Called ''_(zoo.tab)'' [f], Faulted e],
       env := (env s)(''np'' \<mapsto> np, ''pd'' \<mapsto> pd)\<rparr>)"
  using assms by (simp add: cell_3_def run_defs)

lemma cell_24_fetch_fails:
  assumes "\<And>n. call I ''from bs4 import BeautifulSoup'' [] n = Inr bs"
    and "\<And>n. call I ''import requests'' [] n = Inr rq"
    and "\<And>n. call I ''_.get'' [rq] n = Inr g"
    and "\<And>n. call I ''_(url)'' [g] n = Inl e"
  shows "cell_24 I s =
    (Inl e, s\<lparr>trace := trace s @
        [Called ''from bs4 import BeautifulSoup'' [], Assigned ''BeautifulSoup'' bs,
         Called ''import requests'' [], Assigned ''requests'' rq,
         Called ''_.get'' [rq], Called ''_(url)'' [g], Faulted e],
       env := (env s)(''BeautifulSoup'' \<mapsto> bs, ''requests'' \<mapsto> rq)\<rparr>)"
  using assms by (simp add: cell_24_def run_defs)

lemma cell_26_empty_vocabulary:
  assumes "env s ''raw_text'' = Some t"
    and "\<And>n. call I ''from sklearn.feature_extraction.text import TfidfVectorizer'' [] n = Inr tv"
    and "\<And>n. call I ''from sklearn.cluster import KMeans'' [] n = Inr km"
    and "\<And>n. call I ''_.replace'' [t] n = Inr f1"
    and "\<And>n. call I ''_(newline, empty)'' [f1] n = Inr t1"
    and "\<And>n. call I ''_.split'' [t1] n = Inr f2"
    and "\<And>n. call I ''_(.)'' [f2] n = Inr ph"
    and "\<And>n. call I ''_(stop_words=english)'' [tv] n = Inr vz"
    and "\<And>n. call I ''_.fit_transform'' [vz] n = Inr ft"
    and "\<And>n. call I ''_(_)'' [ft, ph] n = Inl e"
  shows "cell_26 I s =
    (Inl e, s\<lparr>trace := trace s @
        [Called ''from sklearn.feature_extraction.text import TfidfVectorizer'' [],
         Assigned ''TfidfVectorizer'' tv,
         Called ''from sklearn.cluster import KMeans'' [], Assigned ''KMeans'' km,
         Called ''_.replace'' [t], Called ''_(newline, empty)'' [f1],
         Called ''_.split'' [t1], Called ''_(.)'' [f2], Assigned ''phrases'' ph,
         Called ''_(stop_words=english)'' [tv], Assigned ''vectorizer'' vz,
         Called ''_.fit_transform'' [vz], Called ''_(_)'' [ft, ph], Faulted e],
       env := (env s)(''TfidfVectorizer'' \<mapsto> tv, ''KMeans'' \<mapsto> km, ''phrases'' \<mapsto> ph,
                ''vectorizer'' \<mapsto> vz)\<rparr>)"
  using assms by (simp add: cell_26_def run_defs)

lemma cell_29_too_many_clusters:
  assumes "env s ''KMeans'' = Some km" and "env s ''X'' = Some x"
    and "\<And>n. call I ''from tqdm.notebook import tqdm'' [] n = Inr tq"
    and "\<And>n. call I ''_(n_clusters=_, max_iter=1000)'' [km, literal I ''10''] n = Inr m"
    and "\<And>n. call I ''_.fit'' [m] n = Inr f"
    and "\<And>n. call I ''_(_)'' [f, x] n = Inl e"
  shows "cell_29 I s =
    (Inl e, s\<lparr>trace := trace s @
        [Called ''from tqdm.notebook import tqdm'' [], Assigned ''tqdm'' tq,
         Assigned ''true_k'' (literal I ''10''), Assigned ''num_words'' (literal I ''5''),
         Called ''_(n_clusters=_, max_iter=1000)'' [km, literal I ''10''], Assigned ''model'' m,
         Called ''_.fit'' [m], Called ''_(_)'' [f, x], Faulted e],
       env := (env s)(''tqdm'' \<mapsto> tq, ''true_k'' \<mapsto> literal I ''10'',
                ''num_words'' \<mapsto> literal I ''5'', ''model'' \<mapsto> m)\<rparr>)"
  using assms by (simp add: cell_29_def run_defs)

text \<open>
  Claim C7. Every code cell of the notebook propagates faults: whatever the interpreter
  and the libraries do, and from every session, a fault raised by an operation of the
  cell, by the iteration or the test of a value, by an unbound variable or by an
  unpacking is the last event of the cell and its outcome. No cell performs another
  operation after a fault, so none retries, recovers, reports, or restores a variable;
  the variables are left as the assignments before the fault made them. In particular,
  when reading the data file, the request for the page, fitting the vectorizer or
  fitting k-means raises, and the operations before it succeed, the cell ends with
  that fault right after the failing call, and the variables assigned before it stay.
\<close>

theorem C7_faults_propagate:
  "(\<forall>cell\<in>set (notebook I). propagates cell)
   \<and> ((\<forall>n. call I ''import numpy'' [] n = Inr np)
        \<and> (\<forall>n. call I ''import pandas'' [] n = Inr pd)
        \<and> (\<forall>n. call I ''_.read_table'' [pd] n = Inr rt)
        \<and> (\<forall>n. call I ''_(zoo.tab)'' [rt] n = Inl e) \<longrightarrow>
      cell_3 I s =
        (Inl e, s\<lparr>trace := trace s @
            [Called ''import numpy'' [], Assigned ''np'' np,
             Called ''import pandas'' [], Assigned ''pd'' pd,
             Called ''_.read_table'' [pd], Called ''_(zoo.tab)'' [rt], Faulted e],
           env := (env s)(''np'' \<mapsto> np, ''pd'' \<mapsto> pd)\<rparr>))
   \<and> ((\<forall>n. call I ''from bs4 import BeautifulSoup'' [] n = Inr bs)
        \<and> (\<forall>n. call I ''import requests'' [] n = Inr rq)
        \<and> (\<forall>n. call I ''_.get'' [rq] n = Inr g)
        \<and> (\<forall>n. call I ''_(url)'' [g] n = Inl e) \<longrightarrow>
      cell_24 I s =
        (Inl e, s\<lparr>trace := trace s @
            [Called ''from bs4 import BeautifulSoup'' [], Assigned ''BeautifulSoup'' bs,
             Called ''import requests'' [], Assigned ''requests'' rq,
             Called ''_.get'' [rq], Called ''_(url)'' [g], Faulted e],
           env := (env s)(''BeautifulSoup'' \<mapsto> bs, ''requests'' \<mapsto> rq)\<rparr>))
   \<and> (env s ''raw_text'' = Some t
        \<and> (\<forall>n. call I ''from sklearn.feature_extraction.text import TfidfVectorizer'' [] n = Inr tv)
        \<and> (\<forall>n. call I ''from sklearn.cluster import KMeans'' [] n = Inr km)
        \<and> (\<forall>n. call I ''_.replace'' [t] n = Inr f1)
        \<and> (\<forall>n. call I ''_(newline, empty)'' [f1] n = Inr t1)
        \<and> (\<forall>n. call I ''_.split'' [t1] n = Inr f2)
        \<and> (\<forall>n. call I ''_(.)'' [f2] n = Inr ph)
        \<and> (\<forall>n. call I ''_(stop_words=english)'' [tv] n = Inr vz)
        \<and> (\<forall>n. call I ''_.fit_transform'' [vz] n = Inr ft)
        \<and> (\<forall>n. call I ''_(_)'' [ft, ph] n = Inl e) \<longrightarrow>
      cell_26 I s =
        (Inl e, s\<lparr>trace := trace s @
            [Called ''from sklearn.feature_extraction.text import TfidfVectorizer'' [],
             Assigned ''TfidfVectorizer'' tv,
             Called ''from sklearn.cluster import KMeans'' [], Assigned ''KMeans'' km,
             Called ''_.replace'' [t], Called ''_(newline, empty)'' [f1],
             Called ''_.split'' [t1], Called ''_(.)'' [f2], Assigned ''phrases'' ph,
             Called ''_(stop_words=english)'' [tv], Assigned ''vectorizer'' vz,
             Called ''_.fit_transform'' [vz], Called ''_(_)'' [ft, ph], Faulted e],
           env := (env s)(''TfidfVectorizer'' \<mapsto> tv, ''KMeans'' \<mapsto> km, ''phrases'' \<mapsto> ph,
                    ''vectorizer'' \<mapsto> vz)\<rparr>))
   \<and> (env s ''KMeans'' = Some km \<and> env s ''X'' = Some x
        \<and> (\<forall>n. call I ''from tqdm.notebook import tqdm'' [] n = Inr tq)
        \<and> (\<forall>n. call I ''_(n_clusters=_, max_iter=1000)'' [km, literal I ''10''] n = Inr m)
        \<and> (\<forall>n. call I ''_.fit'' [m] n = Inr ft)
        \<and> (\<forall>n. call I ''_(_)'' [ft, x] n = Inl e) \<longrightarrow>
      cell_29 I s =
        (Inl e, s\<lparr>trace := trace s @
            [Called ''from tqdm.notebook import tqdm'' [], Assigned ''tqdm'' tq,
             Assigned ''true_k'' (literal I ''10''), Assigned ''num_words'' (literal I ''5''),
             Called ''_(n_clusters=_, max_iter=1000)'' [km, literal I ''10''], Assigned ''model'' m,
             Called ''_.fit'' [m], Called ''_(_)'' [ft, x], Faulted e],
           env := (env s)(''tqdm'' \<mapsto> tq, ''true_k'' \<mapsto> literal I ''10'',
                    ''num_words'' \<mapsto> literal I ''5'', ''model'' \<mapsto> m)\<rparr>))"
proof -
  have a: "\<forall>cell\<in>set (notebook I). propagates cell"
    unfolding notebook_def
    by (simp add: cell_3_propagates cell_4_propagates cell_5_propagates cell_7_propagates
        cell_10_propagates cell_11_propagates cell_12_propagates cell_13_propagates
        cell_15_propagates cell_19_propagates cell_21_propagates cell_22_propagates
        cell_24_propagates cell_26_propagates cell_27_propagates cell_29_propagates
        cell_31_propagates cell_32_propagates cell_34_propagates cell_35_propagates
        cell_37_propagates cell_39_propagates cell_40_propagates cell_42_propagates
        cell_43_propagates cell_44_propagates)
  show ?thesis
    using a cell_3_missing_file [of I np pd rt e s] cell_24_fetch_fails [of I bs rq g e s]
      cell_26_empty_vocabulary [of s t I tv km f1 t1 f2 ph vz ft e]
      cell_29_too_many_clusters [of s km x I tq m ft e]
    by blast
qed

text \<open>
  The first cell when the data file is missing: the two imports, the attribute, the
  failing call and the fault are all its events, and \<^verbatim>\<open>df\<close> stays unbound.
\<close>

theorem C7_witness:
  "cell_3 missing_file \<lparr>trace = [], env = (\<lambda>x. None)\<rparr> =
     (Inl FileNotFoundError,
      \<lparr>trace =
         [Called ''import numpy'' [], Assigned ''np'' 0,
          Called ''import pandas'' [], Assigned ''pd'' 0,
          Called ''_.read_table'' [0], Called ''_(zoo.tab)'' [0], Faulted FileNotFoundError],
       env = [''np'' \<mapsto> 0, ''pd'' \<mapsto> 0]\<rparr>)
   \<and> propagates (cell_3 missing_file)"
proof -
  have h: "(\<forall>n. call missing_file ''import numpy'' [] n = Inr 0)
        \<and> (\<forall>n. call missing_file ''import pandas'' [] n = Inr 0)
        \<and> (\<forall>n. call missing_file ''_.read_table'' [0] n = Inr 0)
        \<and> (\<forall>n. call missing_file ''_(zoo.tab)'' [0] n = Inl FileNotFoundError)"
    by (simp add: missing_file_def)
  have m: "cell_3 missing_file \<in> set (notebook missing_file)"
    by (simp add: notebook_def)
  note t = C7_faults_propagate
    [where I = missing_file and np = 0 and pd = 0 and rt = 0 and e = FileNotFoundError
       and s = "\<lparr>trace = [], env = (\<lambda>x. None)\<rparr>"]
  from t [THEN conjunct1] m have p: "propagates (cell_3 missing_file)"
    by blast
  from t [THEN conjunct2, THEN conjunct1] h
  have "cell_3 missing_file \<lparr>trace = [], env = (\<lambda>x. None)\<rparr> =
     (Inl FileNotFoundError,
      \<lparr>trace =
         [Called ''import numpy'' [], Assigned ''np'' 0,
          Called ''import pandas'' [], Assigned ''pd'' 0,
          Called ''_.read_table'' [0], Called ''_(zoo.tab)'' [0], Faulted FileNotFoundError],
       env = [''np'' \<mapsto> 0, ''pd'' \<mapsto> 0]\<rparr>)"
    by simp
  with p show ?thesis by simp
qed

text \<open>
  The property is not empty: a reader that called the library again after the fault
  would not have it.
\<close>

lemma retrying_reader_does_not_propagate:
  "\<not> propagates (\<lambda>s. case perform missing_file ''_(zoo.tab)'' [] s of
        (Inl e, s') \<Rightarrow> perform missing_file ''_(zoo.tab)'' [] s'
      | (Inr v, s') \<Rightarrow> (Inr v, s'))"
proof
  let ?retry = "\<lambda>s. case perform missing_file ''_(zoo.tab)'' [] s of
        (Inl e, s') \<Rightarrow> perform missing_file ''_(zoo.tab)'' [] s'
      | (Inr v, s') \<Rightarrow> (Inr v, s')"
  let ?s = "\<lparr>trace = [], env = (\<lambda>x. None)\<rparr> :: nat session"
  let ?t = "[Called ''_(zoo.tab)'' [], Faulted FileNotFoundError,
      Called ''_(zoo.tab)'' [], Faulted FileNotFoundError] :: nat event list"
  assume p: "propagates ?retry"
  have run: "?retry ?s = (Inl FileNotFoundError, ?s\<lparr>trace := ?t\<rparr>)"
    by (simp add: perform_def missing_file_def)
  from propagatesD [OF p run] obtain pre where
    "?t = pre @ [Faulted FileNotFoundError]" and ff: "fault_free pre"
    by auto
  then have "pre = butlast ?t" by (metis butlast_snoc)
  with ff show False by (simp add: fault_free_def)
qed

end
